theory Spec2Isabelle
  imports Complex_Main
begin

section \<open>Data model: the SQLite tables and the in-memory structures of the server\<close>

text \<open>
  The server (\<^verbatim>\<open>server/index.js\<close>, in its two versions) keeps its state in five SQLite
  tables, in the map \<^verbatim>\<open>qrTokens\<close> and in the set \<^verbatim>\<open>sseClients\<close>. Every column that a
  handler reads or writes is a field below. \<^verbatim>\<open>TEXT\<close> is \<open>string\<close>. Times are milliseconds
  since the epoch (\<^verbatim>\<open>Date.now()\<close>), as \<open>int\<close>.
\<close>

text \<open>
  A JavaScript number: a double, an infinity or \<^verbatim>\<open>NaN\<close>. \<open>Finite x\<close> stands for the
  double of value \<open>x\<close>.
\<close>

datatype number = Finite real | PlusInfinity | MinusInfinity | NaN

text \<open>
  The seat columns are declared \<^verbatim>\<open>INTEGER NOT NULL\<close> in a table that is not \<^verbatim>\<open>STRICT\<close>, so
  a value in them has one of two storage classes: \<open>INTEGER\<close>, a signed 64-bit integer,
  or \<open>REAL\<close>, a double that is not a whole number of that range.
\<close>

datatype sqlite_value = INTEGER int | REAL number

record user_row =
  u_id :: string
  u_name :: string
  u_email :: string

record workshop_row =
  w_id :: string
  w_title :: string
  w_description :: string
  w_trainer :: string
  w_date :: string
  w_time :: string
  w_duration :: string
  w_location :: string
  availableSeats :: sqlite_value
  totalSeats :: sqlite_value
  w_category :: string

text \<open>
  A value of the JSON body of a request, as far as \<^verbatim>\<open>POST /workshops\<close> observes
  \<^verbatim>\<open>totalSeats\<close>: a JSON number, or any other value given by its truthiness and by what
  \<^verbatim>\<open>Number\<close> makes of it.
\<close>

datatype js_value = JsNumber number | JsOther bool number

text \<open>The body of \<^verbatim>\<open>POST /workshops\<close>.\<close>

record workshop_request =
  b_title :: string
  b_description :: string
  b_trainer :: string
  b_date :: string
  b_time :: string
  b_duration :: string
  b_location :: string
  b_totalSeats :: js_value
  b_category :: string

record reservation_row =
  r_id :: string
  r_userId :: string
  r_workshopId :: string
  r_createdAt :: int

record attendance_row =
  a_id :: string
  a_userId :: string
  a_workshopId :: string
  a_checkedInAt :: int

text \<open>
  \<^verbatim>\<open>qr_tokens.expiresAt\<close> is written as \<^verbatim>\<open>String(now + Math.random() * 20000 + 10000)\<close> and
  read back with \<^verbatim>\<open>parseInt\<close>; the field holds the integer part, which is what
  \<^verbatim>\<open>parseInt\<close> returns and what decides every comparison with an integer \<^verbatim>\<open>now\<close>.
\<close>

record qr_row =
  q_token :: string
  q_workshopId :: string
  q_createdAt :: int
  q_expiresAt :: int
  q_used :: bool

text \<open>A value of the map \<^verbatim>\<open>qrTokens\<close>: \<^verbatim>\<open>{ userId, workshopId, expiresAt }\<close>.\<close>

record mem_token =
  t_userId :: string
  t_workshopId :: string
  t_expiresAt :: int

text \<open>The two payloads that \<^verbatim>\<open>broadcastEvent\<close> is called with.\<close>

datatype payload =
  AttendancePayload string string string string string int
  | QrUsedPayload string string string int

record state =
  users :: "user_row list"
  workshops :: "workshop_row list"
  reservations :: "reservation_row list"
  attendance :: "attendance_row list"
  qr_tokens :: "qr_row list"
  qrTokens :: "string \<rightharpoonup> mem_token"
  sseClients :: "nat list"
  sent :: "(nat \<times> string \<times> payload) list"

text \<open>
  The failure of a handler: the HTTP error responses, named by the kind the
  specification gives them, and \<open>SqliteError\<close> for an exception thrown by a statement
  that violates a constraint of the schema (the handlers do not catch it).
\<close>

datatype error =
  BadRequest
  | NotFound
  | Expired
  | Full
  | AlreadyReserved
  | NoReservation
  | InvalidToken
  | AlreadyUsed
  | TokenExpired
  | AlreadyCheckedIn
  | SqliteError

section \<open>\<^verbatim>\<open>String(n)\<close> for an integer\<close>

definition digit_char :: "nat \<Rightarrow> char" where
  "digit_char d = ''0123456789'' ! d"

fun decimal :: "nat \<Rightarrow> string" where
  "decimal n = (if n < 10 then [digit_char n] else decimal (n div 10) @ [digit_char (n mod 10)])"

declare decimal.simps [simp del]

definition String_of :: "int \<Rightarrow> string" where
  "String_of i = (if i < 0 then CHR ''-'' # decimal (nat (- i)) else decimal (nat i))"

section \<open>Numbers in JavaScript and in SQLite\<close>

text \<open>\<^verbatim>\<open>!v\<close> is false for a truthy value; \<^verbatim>\<open>Number(v)\<close>.\<close>

fun truthy :: "js_value \<Rightarrow> bool" where
  "truthy (JsNumber n) = (n \<noteq> Finite 0 \<and> n \<noteq> NaN)"
| "truthy (JsOther t n) = t"

fun toNumber :: "js_value \<Rightarrow> number" where
  "toNumber (JsNumber n) = n"
| "toNumber (JsOther t n) = n"

text \<open>The range of a signed 64-bit integer.\<close>

definition int64 :: "int \<Rightarrow> bool" where
  "int64 i = (- (2 ^ 63) \<le> i \<and> i < 2 ^ 63)"

text \<open>
  The doubles: \<open>m * 2\<^sup>e\<close> with a significand of 53 bits. The rounding of a real number to
  a double is a parameter \<open>toDouble\<close> of the model; a floating-point operation returns the
  exact result when that is a double and the rounded result otherwise.
\<close>

definition is_double :: "real \<Rightarrow> bool" where
  "is_double x =
     (\<exists>m e :: int. \<bar>m\<bar> < 2 ^ 53 \<and> - 1074 \<le> e \<and> e \<le> 971 \<and> x = of_int m * 2 powr of_int e)"

definition double_of :: "(real \<Rightarrow> real) \<Rightarrow> real \<Rightarrow> real" where
  "double_of toDouble x = (if is_double x then x else toDouble x)"

text \<open>
  The \<^verbatim>\<open>INTEGER\<close> affinity of the column, applied to every value stored in it: a
  \<^verbatim>\<open>REAL\<close> that is a whole number strictly between the least and the greatest 64-bit
  integer becomes an \<^verbatim>\<open>INTEGER\<close>; any other value is stored as it is.
\<close>

fun affinity :: "sqlite_value \<Rightarrow> sqlite_value" where
  "affinity (REAL (Finite x)) =
     (if of_int \<lfloor>x\<rfloor> = x \<and> - (2 ^ 63) < \<lfloor>x\<rfloor> \<and> \<lfloor>x\<rfloor> < 2 ^ 63 - 1 then INTEGER \<lfloor>x\<rfloor>
      else REAL (Finite x))"
| "affinity v = v"

text \<open>
  Binding a JavaScript number to a parameter of an \<^verbatim>\<open>INSERT\<close> into a seat column.
  \<^verbatim>\<open>NaN\<close> is stored as \<^verbatim>\<open>NULL\<close>, which \<^verbatim>\<open>NOT NULL\<close> refuses: \<open>None\<close> is that exception.
\<close>

fun bind_number :: "number \<Rightarrow> sqlite_value option" where
  "bind_number NaN = None"
| "bind_number n = Some (affinity (REAL n))"

text \<open>
  \<^verbatim>\<open>availableSeats+d\<close> in SQLite, for \<open>d\<close> one of \<open>1\<close> and \<open>-1\<close>, and the result as
  stored in the column. On an \<^verbatim>\<open>INTEGER\<close> the sum is exact while it stays in the 64-bit
  range and is computed on doubles when it leaves it; on a \<^verbatim>\<open>REAL\<close> it is the
  floating-point sum.
\<close>

fun sqlite_add :: "(real \<Rightarrow> real) \<Rightarrow> sqlite_value \<Rightarrow> int \<Rightarrow> sqlite_value" where
  "sqlite_add toDouble (INTEGER i) d =
     (if int64 (i + d) then INTEGER (i + d)
      else affinity (REAL (Finite (double_of toDouble (double_of toDouble (of_int i) + of_int d)))))"
| "sqlite_add toDouble (REAL (Finite x)) d =
     affinity (REAL (Finite (double_of toDouble (x + of_int d))))"
| "sqlite_add toDouble (REAL n) d = REAL n"

text \<open>
  The value of a column as a number, and \<^verbatim>\<open><=\<close> on numbers. (A row read by the server
  carries an \<^verbatim>\<open>INTEGER\<close> as the nearest double, whose comparison with 0 is that of
  the integer.)
\<close>

fun to_number :: "sqlite_value \<Rightarrow> number" where
  "to_number (INTEGER i) = Finite (of_int i)"
| "to_number (REAL n) = n"

fun number_le :: "number \<Rightarrow> number \<Rightarrow> bool" where
  "number_le NaN n = False"
| "number_le n NaN = False"
| "number_le MinusInfinity n = True"
| "number_le n PlusInfinity = True"
| "number_le (Finite x) (Finite y) = (x \<le> y)"
| "number_le n m = False"

section \<open>The SQL statements\<close>

definition select_user :: "string \<Rightarrow> state \<Rightarrow> user_row option" where
  "select_user userId s = find (\<lambda>u. u_id u = userId) (users s)"

definition select_workshop :: "string \<Rightarrow> state \<Rightarrow> workshop_row option" where
  "select_workshop workshopId s = find (\<lambda>w. w_id w = workshopId) (workshops s)"

definition select_reservation :: "string \<Rightarrow> string \<Rightarrow> state \<Rightarrow> reservation_row option" where
  "select_reservation userId workshopId s =
     find (\<lambda>r. r_userId r = userId \<and> r_workshopId r = workshopId) (reservations s)"

definition select_attendance :: "string \<Rightarrow> string \<Rightarrow> state \<Rightarrow> attendance_row option" where
  "select_attendance userId workshopId s =
     find (\<lambda>a. a_userId a = userId \<and> a_workshopId a = workshopId) (attendance s)"

text \<open>\<^verbatim>\<open>SELECT * FROM qr_tokens WHERE token=? AND workshopId=?\<close>\<close>

definition select_qr :: "string \<Rightarrow> string \<Rightarrow> state \<Rightarrow> qr_row option" where
  "select_qr token workshopId s =
     find (\<lambda>q. q_token q = token \<and> q_workshopId q = workshopId) (qr_tokens s)"

text \<open>
  An \<^verbatim>\<open>INSERT\<close> throws when the row breaks the primary key, a \<^verbatim>\<open>UNIQUE\<close> constraint or
  a foreign key of the table (better-sqlite3 enforces foreign keys); \<open>None\<close> is the
  exception, and the table is then as before.
\<close>

definition insert_workshop :: "workshop_row \<Rightarrow> state \<Rightarrow> state option" where
  "insert_workshop w s =
     (if w_id w \<in> set (map w_id (workshops s)) then None
      else Some (s\<lparr>workshops := workshops s @ [w]\<rparr>))"

definition insert_reservation :: "reservation_row \<Rightarrow> state \<Rightarrow> state option" where
  "insert_reservation r s =
     (if r_id r \<in> set (map r_id (reservations s))
         \<or> select_reservation (r_userId r) (r_workshopId r) s \<noteq> None
         \<or> select_user (r_userId r) s = None
         \<or> select_workshop (r_workshopId r) s = None
      then None
      else Some (s\<lparr>reservations := reservations s @ [r]\<rparr>))"

definition insert_attendance :: "attendance_row \<Rightarrow> state \<Rightarrow> state option" where
  "insert_attendance a s =
     (if a_id a \<in> set (map a_id (attendance s))
         \<or> select_attendance (a_userId a) (a_workshopId a) s \<noteq> None
         \<or> select_user (a_userId a) s = None
         \<or> select_workshop (a_workshopId a) s = None
      then None
      else Some (s\<lparr>attendance := attendance s @ [a]\<rparr>))"

definition insert_qr :: "qr_row \<Rightarrow> state \<Rightarrow> state option" where
  "insert_qr q s =
     (if q_token q \<in> set (map q_token (qr_tokens s))
         \<or> select_workshop (q_workshopId q) s = None
      then None
      else Some (s\<lparr>qr_tokens := qr_tokens s @ [q]\<rparr>))"

text \<open>\<^verbatim>\<open>UPDATE workshops SET availableSeats=availableSeats+d WHERE id=?\<close>\<close>

definition update_seats :: "(real \<Rightarrow> real) \<Rightarrow> string \<Rightarrow> int \<Rightarrow> state \<Rightarrow> state" where
  "update_seats toDouble workshopId d s =
     s\<lparr>workshops :=
          map (\<lambda>w. if w_id w = workshopId
                   then w\<lparr>availableSeats := sqlite_add toDouble (availableSeats w) d\<rparr> else w)
              (workshops s)\<rparr>"

text \<open>\<^verbatim>\<open>DELETE FROM reservations WHERE id=?\<close>\<close>

definition delete_reservation :: "string \<Rightarrow> state \<Rightarrow> state" where
  "delete_reservation rid s = s\<lparr>reservations := filter (\<lambda>r. r_id r \<noteq> rid) (reservations s)\<rparr>"

text \<open>\<^verbatim>\<open>DELETE FROM qr_tokens WHERE expiresAt < ? OR workshopId = ?\<close>\<close>

definition delete_qr_stale :: "int \<Rightarrow> string \<Rightarrow> state \<Rightarrow> state" where
  "delete_qr_stale now workshopId s =
     s\<lparr>qr_tokens := filter (\<lambda>q. \<not> (q_expiresAt q < now \<or> q_workshopId q = workshopId)) (qr_tokens s)\<rparr>"

text \<open>\<^verbatim>\<open>DELETE FROM qr_tokens WHERE token=?\<close>\<close>

definition delete_qr :: "string \<Rightarrow> state \<Rightarrow> state" where
  "delete_qr token s = s\<lparr>qr_tokens := filter (\<lambda>q. q_token q \<noteq> token) (qr_tokens s)\<rparr>"

text \<open>\<^verbatim>\<open>UPDATE qr_tokens SET used = TRUE WHERE token = ?\<close>\<close>

definition mark_used :: "string \<Rightarrow> state \<Rightarrow> state" where
  "mark_used token s =
     s\<lparr>qr_tokens := map (\<lambda>q. if q_token q = token then q\<lparr>q_used := True\<rparr> else q) (qr_tokens s)\<rparr>"

text \<open>\<^verbatim>\<open>SELECT COUNT(*) FROM attendance WHERE workshopId = ?\<close>\<close>

definition attendanceCount :: "string \<Rightarrow> state \<Rightarrow> nat" where
  "attendanceCount workshopId s = length (filter (\<lambda>a. a_workshopId a = workshopId) (attendance s))"

section \<open>The event broadcaster\<close>

text \<open>
  \<^verbatim>\<open>broadcastEvent(event, data)\<close> writes the event to every client of \<^verbatim>\<open>sseClients\<close>, in
  the order of the set; \<open>sent\<close> is the log of these writes.
\<close>

definition broadcastEvent :: "string \<Rightarrow> payload \<Rightarrow> state \<Rightarrow> state" where
  "broadcastEvent event data s = s\<lparr>sent := sent s @ map (\<lambda>c. (c, event, data)) (sseClients s)\<rparr>"

text \<open>\<^verbatim>\<open>GET /events\<close> adds the client; closing the request deletes it.\<close>

definition events_open :: "nat \<Rightarrow> state \<Rightarrow> state" where
  "events_open client s =
     (if client \<in> set (sseClients s) then s else s\<lparr>sseClients := sseClients s @ [client]\<rparr>)"

definition events_close :: "nat \<Rightarrow> state \<Rightarrow> state" where
  "events_close client s = s\<lparr>sseClients := filter (\<lambda>c. c \<noteq> client) (sseClients s)\<rparr>"

section \<open>The seat ledger: \<^verbatim>\<open>POST /workshops\<close>, \<^verbatim>\<open>POST /reservations\<close>, \<^verbatim>\<open>DELETE /reservations\<close>\<close>

text \<open>
  \<^verbatim>\<open>POST /workshops\<close>: the fields are checked for truthiness only, and the row is created
  with \<^verbatim>\<open>availableSeats = totalSeats = Number(totalSeats)\<close> and the id
  \<^verbatim>\<open>String(Date.now())\<close>.
\<close>

definition post_workshops ::
  "int \<Rightarrow> workshop_request \<Rightarrow> state \<Rightarrow> (error + workshop_row option) \<times> state" where
  "post_workshops now body s =
     (if b_title body = [] \<or> b_trainer body = [] \<or> b_date body = [] \<or> b_time body = []
         \<or> b_duration body = [] \<or> b_location body = [] \<or> \<not> truthy (b_totalSeats body)
         \<or> b_category body = []
      then (Inl BadRequest, s)
      else
        case bind_number (toNumber (b_totalSeats body)) of
          None \<Rightarrow> (Inl SqliteError, s)
        | Some seats \<Rightarrow>
            let row = \<lparr>w_id = String_of now, w_title = b_title body,
                       w_description = b_description body, w_trainer = b_trainer body,
                       w_date = b_date body, w_time = b_time body, w_duration = b_duration body,
                       w_location = b_location body, availableSeats = seats, totalSeats = seats,
                       w_category = b_category body\<rparr> in
            (case insert_workshop row s of
               None \<Rightarrow> (Inl SqliteError, s)
             | Some s1 \<Rightarrow> (Inr (select_workshop (String_of now) s1), s1)))"

text \<open>
  \<^verbatim>\<open>POST /reservations\<close>. \<open>parseDate\<close> stands for
  \<^verbatim>\<open>new Date(`${workshop.date}T00:00:00`)\<close> (\<open>None\<close> for an invalid date, which
  compares false), \<open>startOfToday\<close> for the local midnight of the request's day. The insert
  and the decrement are one transaction: when the insert throws, nothing is written.
\<close>

definition post_reservations ::
  "(real \<Rightarrow> real) \<Rightarrow> (string \<Rightarrow> int option) \<Rightarrow> int \<Rightarrow> int \<Rightarrow> string \<Rightarrow> string \<Rightarrow> state
     \<Rightarrow> (error + reservation_row \<times> workshop_row option) \<times> state" where
  "post_reservations toDouble parseDate now startOfToday userId workshopId s =
     (if userId = [] \<or> workshopId = [] then (Inl BadRequest, s)
      else
        case select_user userId s of
          None \<Rightarrow> (Inl NotFound, s)
        | Some user \<Rightarrow>
            (case select_workshop workshopId s of
               None \<Rightarrow> (Inl NotFound, s)
             | Some workshop \<Rightarrow>
                 if (case parseDate (w_date workshop) of None \<Rightarrow> False | Some wsDate \<Rightarrow> wsDate < startOfToday)
                 then (Inl Expired, s)
                 else if number_le (to_number (availableSeats workshop)) (Finite 0)
                 then (Inl Full, s)
                 else if select_reservation userId workshopId s \<noteq> None then (Inl AlreadyReserved, s)
                 else
                   let row = \<lparr>r_id = String_of now, r_userId = userId, r_workshopId = workshopId,
                              r_createdAt = now\<rparr> in
                   (case insert_reservation row s of
                      None \<Rightarrow> (Inl SqliteError, s)
                    | Some s1 \<Rightarrow>
                        let s2 = update_seats toDouble workshopId (- 1) s1 in
                        (Inr (row, select_workshop workshopId s2), s2))))"

text \<open>\<^verbatim>\<open>DELETE /reservations\<close>: the reservation is deleted by its id and the seat is given back.\<close>

definition delete_reservations ::
  "(real \<Rightarrow> real) \<Rightarrow> string \<Rightarrow> string \<Rightarrow> state \<Rightarrow> (error + workshop_row option) \<times> state" where
  "delete_reservations toDouble userId workshopId s =
     (if userId = [] \<or> workshopId = [] then (Inl BadRequest, s)
      else
        case select_reservation userId workshopId s of
          None \<Rightarrow> (Inl NotFound, s)
        | Some exists \<Rightarrow>
            let s2 = update_seats toDouble workshopId 1 (delete_reservation (r_id exists) s) in
            (Inr (select_workshop workshopId s2), s2))"

section \<open>The token store and the check-in coordinator\<close>

subsection \<open>User-scoped tokens: \<^verbatim>\<open>POST /qr/generate\<close> and \<^verbatim>\<open>POST /qr/validate\<close>\<close>

text \<open>
  \<open>token\<close> is the value of \<^verbatim>\<open>crypto.randomBytes(32).toString('hex')\<close>; \<open>ttl\<close> is the
  lifetime, \<open>10000\<close> in \<^verbatim>\<open>src/server/index.js\<close> and \<open>30000\<close> in the later version of the
  file. The reservation is verified here, when the token is issued.
\<close>

definition qr_generate ::
  "int \<Rightarrow> int \<Rightarrow> string \<Rightarrow> string \<Rightarrow> string \<Rightarrow> state \<Rightarrow> (error + string \<times> int) \<times> state" where
  "qr_generate ttl now token userId workshopId s =
     (if userId = [] \<or> workshopId = [] then (Inl BadRequest, s)
      else if select_reservation userId workshopId s = None then (Inl NoReservation, s)
      else
        let expiresAt = now + ttl in
        (Inr (token, expiresAt),
         s\<lparr>qrTokens := (qrTokens s)(token \<mapsto>
              \<lparr>t_userId = userId, t_workshopId = workshopId, t_expiresAt = expiresAt\<rparr>)\<rparr>))"

text \<open>
  \<^verbatim>\<open>POST /qr/validate\<close>. Both versions of the file run the same checks in the same order
  (the later one nests them in \<^verbatim>\<open>if (tokenData) { ... } else { ... }\<close>); only the text
  of the message for an unknown token differs. The attendance id is
  \<^verbatim>\<open>String(Date.now())\<close>.
\<close>

definition qr_validate ::
  "int \<Rightarrow> string \<Rightarrow> state \<Rightarrow> (error + user_row \<times> string \<times> int) \<times> state" where
  "qr_validate now token s =
     (if token = [] then (Inl BadRequest, s)
      else
        case qrTokens s token of
          None \<Rightarrow> (Inl InvalidToken, s)
        | Some tokenData \<Rightarrow>
            if t_expiresAt tokenData < now
            then (Inl TokenExpired, s\<lparr>qrTokens := (qrTokens s)(token := None)\<rparr>)
            else
              let userId = t_userId tokenData; workshopId = t_workshopId tokenData in
              (case select_user userId s of
                 None \<Rightarrow> (Inl NotFound, s)
               | Some user \<Rightarrow>
                   if select_attendance userId workshopId s \<noteq> None
                   then (Inl AlreadyCheckedIn, s\<lparr>qrTokens := (qrTokens s)(token := None)\<rparr>)
                   else
                     (case insert_attendance
                             \<lparr>a_id = String_of now, a_userId = userId, a_workshopId = workshopId,
                              a_checkedInAt = now\<rparr> s of
                        None \<Rightarrow> (Inl SqliteError, s)
                      | Some s1 \<Rightarrow>
                          let s2 = s1\<lparr>qrTokens := (qrTokens s1)(token := None)\<rparr>;
                              s3 = broadcastEvent ''attendance''
                                     (AttendancePayload (String_of now) userId (u_name user)
                                        (u_email user) workshopId now) s2
                          in (Inr (user, workshopId, now), s3))))"

text \<open>The timer that deletes the expired entries of \<^verbatim>\<open>qrTokens\<close> every 30 seconds.\<close>

definition cleanup :: "int \<Rightarrow> state \<Rightarrow> state" where
  "cleanup now s =
     s\<lparr>qrTokens := (\<lambda>token. case qrTokens s token of
                        None \<Rightarrow> None
                      | Some tokenData \<Rightarrow> if t_expiresAt tokenData < now then None else Some tokenData)\<rparr>"

subsection \<open>Workshop-scoped tokens: \<^verbatim>\<open>POST /qr/generate-workshop\<close> and \<^verbatim>\<open>POST /qr/validate-workshop\<close>\<close>

text \<open>
  \<open>rand\<close> is the integer part of \<^verbatim>\<open>Math.random() * 20000\<close>, so \<open>0 \<le> rand < 20000\<close>. The
  delete and the insert are two statements outside any transaction: when the insert
  throws, the delete stays.
\<close>

definition qr_generate_workshop ::
  "int \<Rightarrow> int \<Rightarrow> string \<Rightarrow> string \<Rightarrow> state \<Rightarrow> (error + string \<times> nat) \<times> state" where
  "qr_generate_workshop now rand token workshopId s =
     (if workshopId = [] then (Inl BadRequest, s)
      else
        case select_workshop workshopId s of
          None \<Rightarrow> (Inl NotFound, s)
        | Some workshop \<Rightarrow>
            let s1 = delete_qr_stale now workshopId s;
                expiresAt = now + rand + 10000 in
            (case insert_qr \<lparr>q_token = token, q_workshopId = workshopId, q_createdAt = now,
                             q_expiresAt = expiresAt, q_used = False\<rparr> s1 of
               None \<Rightarrow> (Inl SqliteError, s1)
             | Some s2 \<Rightarrow> (Inr (token, attendanceCount workshopId s2), s2)))"

text \<open>
  \<^verbatim>\<open>POST /qr/validate-workshop\<close>. \<open>attendanceId\<close> and \<open>eventId\<close> are the two values of
  \<^verbatim>\<open>crypto.randomUUID()\<close>, \<open>newToken\<close> the value of \<^verbatim>\<open>crypto.randomBytes\<close>. The insert of
  the attendance row and the update of \<^verbatim>\<open>used\<close> are one transaction. The two events are
  written before the new token is inserted; when that insert throws, the transaction
  and the events stay.
\<close>

definition qr_validate_workshop ::
  "int \<Rightarrow> int \<Rightarrow> string \<Rightarrow> string \<Rightarrow> string \<Rightarrow> string \<Rightarrow> string \<Rightarrow> string \<Rightarrow> state
     \<Rightarrow> (error + user_row \<times> string \<times> int \<times> string \<times> int) \<times> state" where
  "qr_validate_workshop now rand attendanceId eventId newToken token workshopId userId s =
     (if token = [] \<or> workshopId = [] \<or> userId = [] then (Inl BadRequest, s)
      else
        case select_user userId s of
          None \<Rightarrow> (Inl NotFound, s)
        | Some user \<Rightarrow>
            if select_reservation userId workshopId s = None then (Inl NoReservation, s)
            else
              (case select_qr token workshopId s of
                 None \<Rightarrow> (Inl InvalidToken, s)
               | Some qrData \<Rightarrow>
                   if q_used qrData then (Inl AlreadyUsed, s)
                   else if q_expiresAt qrData < now then (Inl TokenExpired, delete_qr token s)
                   else if select_attendance userId workshopId s \<noteq> None then (Inl AlreadyCheckedIn, s)
                   else
                     (case insert_attendance
                             \<lparr>a_id = attendanceId, a_userId = userId, a_workshopId = workshopId,
                              a_checkedInAt = now\<rparr> s of
                        None \<Rightarrow> (Inl SqliteError, s)
                      | Some s1 \<Rightarrow>
                          let s2 = mark_used token s1;
                              s3 = broadcastEvent ''attendance''
                                     (AttendancePayload eventId userId (u_name user) (u_email user)
                                        workshopId now) s2;
                              newExpiresAt = now + rand + 10000;
                              s4 = broadcastEvent ''qr_used''
                                     (QrUsedPayload workshopId (u_name user) newToken newExpiresAt) s3
                          in
                          (case insert_qr \<lparr>q_token = newToken, q_workshopId = workshopId,
                                           q_createdAt = now, q_expiresAt = newExpiresAt,
                                           q_used = False\<rparr> s4 of
                             None \<Rightarrow> (Inl SqliteError, s4)
                           | Some s5 \<Rightarrow>
                               (Inr (user, workshopId, now, newToken, newExpiresAt), s5)))))"

section \<open>Sequences of requests\<close>

text \<open>
  Node runs one handler at a time and no handler awaits between its statements
  (better-sqlite3 is synchronous), so a run of the server is a sequence of requests,
  each applied to the state the previous one left.
\<close>

datatype request =
  PostWorkshops int workshop_request
  | PostReservations int int string string
  | DeleteReservations string string
  | QrGenerate int string string string
  | QrValidate int string
  | QrGenerateWorkshop int int string string
  | QrValidateWorkshop int int string string string string string string
  | EventsOpen nat
  | EventsClose nat
  | Cleanup int

fun handle :: "(real \<Rightarrow> real) \<Rightarrow> (string \<Rightarrow> int option) \<Rightarrow> int \<Rightarrow> request \<Rightarrow> state \<Rightarrow> state" where
  "handle toDouble parseDate ttl (PostWorkshops now body) s = snd (post_workshops now body s)"
| "handle toDouble parseDate ttl (PostReservations now startOfToday userId workshopId) s =
     snd (post_reservations toDouble parseDate now startOfToday userId workshopId s)"
| "handle toDouble parseDate ttl (DeleteReservations userId workshopId) s =
     snd (delete_reservations toDouble userId workshopId s)"
| "handle toDouble parseDate ttl (QrGenerate now token userId workshopId) s =
     snd (qr_generate ttl now token userId workshopId s)"
| "handle toDouble parseDate ttl (QrValidate now token) s = snd (qr_validate now token s)"
| "handle toDouble parseDate ttl (QrGenerateWorkshop now rand token workshopId) s =
     snd (qr_generate_workshop now rand token workshopId s)"
| "handle toDouble parseDate ttl (QrValidateWorkshop now rand attendanceId eventId newToken token workshopId userId) s =
     snd (qr_validate_workshop now rand attendanceId eventId newToken token workshopId userId s)"
| "handle toDouble parseDate ttl (EventsOpen client) s = events_open client s"
| "handle toDouble parseDate ttl (EventsClose client) s = events_close client s"
| "handle toDouble parseDate ttl (Cleanup now) s = cleanup now s"

fun run :: "(real \<Rightarrow> real) \<Rightarrow> (string \<Rightarrow> int option) \<Rightarrow> int \<Rightarrow> request list \<Rightarrow> state \<Rightarrow> state" where
  "run toDouble parseDate ttl [] s = s"
| "run toDouble parseDate ttl (req # reqs) s = run toDouble parseDate ttl reqs (handle toDouble parseDate ttl req s)"

section \<open>The database after \<^verbatim>\<open>initDb\<close>\<close>

text \<open>
  \<^verbatim>\<open>initDb\<close> creates the tables and seeds the administrator and one workshop, with 8 of
  its 15 seats available and no reservation.
\<close>

definition initial_state :: state where
  "initial_state =
     \<lparr>users = [\<lparr>u_id = ''admin-1'', u_name = ''Admin'', u_email = ''admin@admin.com''\<rparr>],
      workshops = [\<lparr>w_id = ''1'', w_title = ''Advanced Leadership Skills'',
                    w_description = ''Master leadership with strategies and hands-on exercises.'',
                    w_trainer = ''Sarah Johnson'', w_date = ''2025-12-15'', w_time = ''09:00'',
                    w_duration = ''4 hours'', w_location = ''Conference Room A'',
                    availableSeats = INTEGER 8, totalSeats = INTEGER 15,
                    w_category = ''Leadership''\<rparr>],
      reservations = [], attendance = [], qr_tokens = [], qrTokens = Map.empty,
      sseClients = [], sent = []\<rparr>"

section \<open>Invariants\<close>

text \<open>
  The primary keys and the \<^verbatim>\<open>UNIQUE\<close> constraints of the schema. SQLite keeps them in
  every state of the database.
\<close>

definition schema_ok :: "state \<Rightarrow> bool" where
  "schema_ok s =
     (distinct (map u_id (users s)) \<and>
      distinct (map w_id (workshops s)) \<and>
      distinct (map r_id (reservations s)) \<and>
      distinct (map (\<lambda>r. (r_userId r, r_workshopId r)) (reservations s)) \<and>
      distinct (map a_id (attendance s)) \<and>
      distinct (map (\<lambda>a. (a_userId a, a_workshopId a)) (attendance s)) \<and>
      distinct (map q_token (qr_tokens s)))"

text \<open>The number of active reservations of a workshop.\<close>

definition reservation_count :: "string \<Rightarrow> state \<Rightarrow> nat" where
  "reservation_count workshopId s = length (filter (\<lambda>r. r_workshopId r = workshopId) (reservations s))"

text \<open>
  \<open>available = total - (number of active reservations)\<close>, for the rows of the workshop,
  as an equation between numbers (an infinity less a count is that infinity).
\<close>

fun number_minus :: "number \<Rightarrow> nat \<Rightarrow> number" where
  "number_minus (Finite x) n = Finite (x - real n)"
| "number_minus v n = v"

definition seats_consistent :: "string \<Rightarrow> state \<Rightarrow> bool" where
  "seats_consistent workshopId s =
     (\<forall>w \<in> set (workshops s). w_id w = workshopId \<longrightarrow>
        to_number (availableSeats w) \<noteq> NaN
        \<and> to_number (availableSeats w)
            = number_minus (to_number (totalSeats w)) (reservation_count workshopId s))"

text \<open>\<open>0 \<le> available \<le> total\<close>, and its lower half.\<close>

definition seats_in_range :: "string \<Rightarrow> state \<Rightarrow> bool" where
  "seats_in_range workshopId s =
     (\<forall>w \<in> set (workshops s). w_id w = workshopId \<longrightarrow>
        number_le (Finite 0) (to_number (availableSeats w))
        \<and> number_le (to_number (availableSeats w)) (to_number (totalSeats w)))"

definition seats_nonneg :: "string \<Rightarrow> state \<Rightarrow> bool" where
  "seats_nonneg workshopId s =
     (\<forall>w \<in> set (workshops s). w_id w = workshopId \<longrightarrow>
        number_le (Finite 0) (to_number (availableSeats w)))"

text \<open>The seat counts of the workshop are stored as integers of the 64-bit range.\<close>

fun stored_integer :: "sqlite_value \<Rightarrow> bool" where
  "stored_integer (INTEGER i) = int64 i"
| "stored_integer (REAL n) = False"

definition seats_integral :: "string \<Rightarrow> state \<Rightarrow> bool" where
  "seats_integral workshopId s =
     (\<forall>w \<in> set (workshops s). w_id w = workshopId \<longrightarrow>
        stored_integer (availableSeats w) \<and> stored_integer (totalSeats w))"

definition ledger_ok :: "string \<Rightarrow> state \<Rightarrow> bool" where
  "ledger_ok w s = (seats_integral w s \<and> seats_consistent w s \<and> seats_nonneg w s)"

text \<open>
  For one row and a count \<open>n\<close> of reservations: integer seat counts that satisfy the
  equation, and the same with \<open>0 \<le> available\<close>.
\<close>

definition seat_row_eq :: "nat \<Rightarrow> workshop_row \<Rightarrow> bool" where
  "seat_row_eq n row =
     (\<exists>a t. availableSeats row = INTEGER a \<and> totalSeats row = INTEGER t \<and> int64 a \<and> int64 t
        \<and> a = t - int n)"

definition seat_row_ok :: "nat \<Rightarrow> workshop_row \<Rightarrow> bool" where
  "seat_row_ok n row =
     (seat_row_eq n row \<and> number_le (Finite 0) (to_number (availableSeats row)))"

text \<open>The one request that adds a row to \<^verbatim>\<open>workshops\<close>.\<close>

fun creates_workshop :: "request \<Rightarrow> bool" where
  "creates_workshop (PostWorkshops now body) = True"
| "creates_workshop req = False"

text \<open>At most one attendance row for each pair of a user and a workshop.\<close>

definition attendance_unique :: "state \<Rightarrow> bool" where
  "attendance_unique s = distinct (map (\<lambda>a. (a_userId a, a_workshopId a)) (attendance s))"

text \<open>The attendance rows of one pair.\<close>

definition attendance_of :: "string \<Rightarrow> string \<Rightarrow> state \<Rightarrow> attendance_row list" where
  "attendance_of userId workshopId s =
     filter (\<lambda>a. a_userId a = userId \<and> a_workshopId a = workshopId) (attendance s)"

text \<open>The unused token rows of a workshop, and those of them that are unexpired at \<open>now\<close>.\<close>

definition unused_tokens :: "string \<Rightarrow> state \<Rightarrow> qr_row list" where
  "unused_tokens workshopId s =
     filter (\<lambda>q. q_workshopId q = workshopId \<and> \<not> q_used q) (qr_tokens s)"

definition live_tokens :: "int \<Rightarrow> string \<Rightarrow> state \<Rightarrow> qr_row list" where
  "live_tokens now workshopId s =
     filter (\<lambda>q. q_workshopId q = workshopId \<and> \<not> q_used q \<and> \<not> q_expiresAt q < now) (qr_tokens s)"

text \<open>At most one unused token row for the workshop, hence at most one live token at any time.\<close>

definition one_live_token :: "string \<Rightarrow> state \<Rightarrow> bool" where
  "one_live_token workshopId s = (length (unused_tokens workshopId s) \<le> 1)"

section \<open>Concrete inputs for the examples\<close>

text \<open>A date parser for which every date is invalid, so that no workshop is expired.\<close>

definition no_date :: "string \<Rightarrow> int option" where
  "no_date d = None"

text \<open>
  A value for the rounding parameter in the examples. No example reaches it: every sum
  that the examples compute on doubles is itself a double.
\<close>

definition no_rounding :: "real \<Rightarrow> real" where
  "no_rounding x = x"

text \<open>A complete body for \<^verbatim>\<open>POST /workshops\<close> with the JSON number \<open>n\<close> as \<^verbatim>\<open>totalSeats\<close>.\<close>

definition workshop_body :: "real \<Rightarrow> workshop_request" where
  "workshop_body n =
     \<lparr>b_title = ''Intro'', b_description = [], b_trainer = ''Ann'', b_date = ''2030-01-01'',
      b_time = ''10:00'', b_duration = ''1 hour'', b_location = ''Room B'',
      b_totalSeats = JsNumber (Finite n), b_category = ''General''\<rparr>"

text \<open>The row of a workshop with the given id, \<open>a\<close> seats available and \<open>t\<close> seats in total.\<close>

definition workshop_with :: "string \<Rightarrow> int \<Rightarrow> int \<Rightarrow> workshop_row" where
  "workshop_with workshopId a t =
     \<lparr>w_id = workshopId, w_title = ''Intro'', w_description = [], w_trainer = ''Ann'',
      w_date = ''2030-01-01'', w_time = ''10:00'', w_duration = ''1 hour'', w_location = ''Room B'',
      availableSeats = INTEGER a, totalSeats = INTEGER t, w_category = ''General''\<rparr>"

text \<open>
  A database in which a workshop with one seat shows that seat as available although
  one reservation is active.
\<close>

definition overbooked_state :: state where
  "overbooked_state =
     initial_state\<lparr>
       workshops := [workshop_with ''7'' 1 1],
       reservations := [\<lparr>r_id = ''9'', r_userId = ''admin-1'', r_workshopId = ''7'', r_createdAt = 9\<rparr>]\<rparr>"

text \<open>
  The seeded database after a workshop with one seat has been created and the
  administrator has reserved it.
\<close>

definition reserved_state :: state where
  "reserved_state =
     run no_rounding no_date 10000
       [PostWorkshops 5 (workshop_body 1), PostReservations 6 0 ''admin-1'' ''5''] initial_state"

text \<open>
  A database during a workshop: two users hold a reservation, the first has checked in,
  one unused token is displayed for the workshop, and one client listens to the events.
\<close>

definition demo_state :: state where
  "demo_state =
     \<lparr>users = [\<lparr>u_id = ''u1'', u_name = ''Ann'', u_email = ''ann@example.org''\<rparr>,
               \<lparr>u_id = ''u2'', u_name = ''Bob'', u_email = ''bob@example.org''\<rparr>],
      workshops = [workshop_with ''w1'' 3 5],
      reservations = [\<lparr>r_id = ''r1'', r_userId = ''u1'', r_workshopId = ''w1'', r_createdAt = 1\<rparr>,
                      \<lparr>r_id = ''r2'', r_userId = ''u2'', r_workshopId = ''w1'', r_createdAt = 2\<rparr>],
      attendance = [\<lparr>a_id = ''a1'', a_userId = ''u1'', a_workshopId = ''w1'', a_checkedInAt = 50\<rparr>],
      qr_tokens = [\<lparr>q_token = ''T'', q_workshopId = ''w1'', q_createdAt = 90, q_expiresAt = 10090,
                     q_used = False\<rparr>],
      qrTokens = Map.empty, sseClients = [0], sent = []\<rparr>"

text \<open>
  Scenario B on the seeded database: the administrator reserves workshop 1 and is issued
  the user-scoped token \<open>T\<close>.
\<close>

definition token_issued_state :: state where
  "token_issued_state =
     run no_rounding no_date 10000
       [PostReservations 6 0 ''admin-1'' ''1'', QrGenerate 7 ''T'' ''admin-1'' ''1'']
       initial_state"

text \<open>The same, and the reservation is cancelled before the token is presented.\<close>

definition cancelled_after_issue_state :: state where
  "cancelled_after_issue_state =
     run no_rounding no_date 10000
       [PostReservations 6 0 ''admin-1'' ''1'', QrGenerate 7 ''T'' ''admin-1'' ''1'',
        DeleteReservations ''admin-1'' ''1'']
       initial_state"

section \<open>Properties of the schema\<close>

lemma filter_remove_id:
  "distinct (map f rs) \<Longrightarrow> r \<in> set rs \<Longrightarrow>
   length (filter P (filter (\<lambda>x. f x \<noteq> f r) rs)) = length (filter P rs) - (if P r then 1 else 0)"
proof (induction rs)
  case Nil
  then show ?case by simp
next
  case (Cons a rs)
  show ?case
  proof (cases "a = r")
    case True
    with Cons.prems have "filter (\<lambda>x. f x \<noteq> f r) rs = rs"
      by (auto simp: filter_id_conv image_iff)
    with True show ?thesis by simp
  next
    case False
    with Cons.prems have "f a \<noteq> f r" by (auto simp: image_iff)
    moreover have "P r \<Longrightarrow> 0 < length (filter P rs)" using Cons.prems False
      by (auto simp: filter_empty_conv)
    ultimately show ?thesis using Cons False by auto
  qed
qed

lemma schema_ok_simple [simp]:
  "schema_ok (broadcastEvent e d s) = schema_ok s"
  "schema_ok (events_open c s) = schema_ok s"
  "schema_ok (events_close c s) = schema_ok s"
  "schema_ok (cleanup now s) = schema_ok s"
  "schema_ok (s\<lparr>qrTokens := m\<rparr>) = schema_ok s"
  by (auto simp: schema_ok_def broadcastEvent_def events_open_def events_close_def cleanup_def)

lemma map_w_id_update:
  "map (w_id \<circ> (\<lambda>x. if w_id x = w then x\<lparr>availableSeats := f x\<rparr> else x)) xs = map w_id xs"
  by (induction xs) auto

lemma map_q_token_update:
  "map (q_token \<circ> (\<lambda>q. if q_token q = t then q\<lparr>q_used := True\<rparr> else q)) xs = map q_token xs"
  by (induction xs) auto

lemma schema_ok_update_seats [simp]: "schema_ok (update_seats toDouble w d s) = schema_ok s"
  by (simp add: schema_ok_def update_seats_def map_w_id_update)

lemma schema_ok_mark_used [simp]: "schema_ok (mark_used t s) = schema_ok s"
  by (simp add: schema_ok_def mark_used_def map_q_token_update)

lemma schema_ok_deletes:
  "schema_ok s \<Longrightarrow> schema_ok (delete_reservation rid s)"
  "schema_ok s \<Longrightarrow> schema_ok (delete_qr t s)"
  "schema_ok s \<Longrightarrow> schema_ok (delete_qr_stale now w s)"
  by (simp_all add: schema_ok_def delete_reservation_def delete_qr_def delete_qr_stale_def
      distinct_map_filter)

lemma schema_ok_insert_workshop:
  "insert_workshop w s = Some s1 \<Longrightarrow> schema_ok s \<Longrightarrow> schema_ok s1"
  by (auto simp: schema_ok_def insert_workshop_def split: if_splits)

lemma schema_ok_insert_reservation:
  "insert_reservation r s = Some s1 \<Longrightarrow> schema_ok s \<Longrightarrow> schema_ok s1"
  by (auto simp: schema_ok_def insert_reservation_def select_reservation_def find_None_iff
      split: if_splits; blast)

lemma schema_ok_insert_attendance:
  "insert_attendance a s = Some s1 \<Longrightarrow> schema_ok s \<Longrightarrow> schema_ok s1"
  by (auto simp: schema_ok_def insert_attendance_def select_attendance_def find_None_iff
      split: if_splits; blast)

lemma schema_ok_insert_qr:
  "insert_qr q s = Some s1 \<Longrightarrow> schema_ok s \<Longrightarrow> schema_ok s1"
  by (auto simp: schema_ok_def insert_qr_def split: if_splits)

lemmas schema_ok_inserts = schema_ok_insert_workshop schema_ok_insert_reservation
  schema_ok_insert_attendance schema_ok_insert_qr

lemma schema_ok_post_workshops: "schema_ok s \<Longrightarrow> schema_ok (snd (post_workshops now body s))"
  by (auto simp: post_workshops_def Let_def split: option.splits simp: schema_ok_inserts)

lemma schema_ok_post_reservations:
  "schema_ok s \<Longrightarrow> schema_ok (snd (post_reservations toDouble parseDate now startOfToday userId workshopId s))"
  by (auto simp: post_reservations_def Let_def split: option.splits simp: schema_ok_inserts)

lemma schema_ok_delete_reservations:
  "schema_ok s \<Longrightarrow> schema_ok (snd (delete_reservations toDouble userId workshopId s))"
  by (auto simp: delete_reservations_def Let_def split: option.splits simp: schema_ok_deletes)

lemma schema_ok_qr_generate:
  "schema_ok s \<Longrightarrow> schema_ok (snd (qr_generate ttl now token userId workshopId s))"
  by (simp add: qr_generate_def Let_def)

lemma schema_ok_qr_validate: "schema_ok s \<Longrightarrow> schema_ok (snd (qr_validate now token s))"
  by (auto simp: qr_validate_def Let_def split: option.splits simp: schema_ok_inserts)

lemma schema_ok_qr_generate_workshop:
  "schema_ok s \<Longrightarrow> schema_ok (snd (qr_generate_workshop now rand token workshopId s))"
  by (auto simp: qr_generate_workshop_def Let_def split: option.splits
      simp: schema_ok_inserts schema_ok_deletes)

lemma schema_ok_qr_validate_workshop:
  "schema_ok s \<Longrightarrow>
   schema_ok (snd (qr_validate_workshop now rand attendanceId eventId newToken token workshopId userId s))"
  by (auto simp: qr_validate_workshop_def Let_def split: option.splits
      simp: schema_ok_inserts schema_ok_deletes)

lemma schema_ok_handle: "schema_ok s \<Longrightarrow> schema_ok (handle toDouble parseDate ttl req s)"
  by (cases req)
    (simp_all add: schema_ok_post_workshops schema_ok_post_reservations
      schema_ok_delete_reservations schema_ok_qr_generate schema_ok_qr_validate
      schema_ok_qr_generate_workshop schema_ok_qr_validate_workshop)

lemma schema_ok_run: "schema_ok s \<Longrightarrow> schema_ok (run toDouble parseDate ttl reqs s)"
  by (induction reqs arbitrary: s) (simp_all add: schema_ok_handle)

section \<open>The seat ledger\<close>

lemma ledger_ok_frame:
  "workshops s' = workshops s \<Longrightarrow> reservations s' = reservations s \<Longrightarrow> ledger_ok w s' = ledger_ok w s"
  by (simp add: ledger_ok_def seats_integral_def seats_consistent_def seats_nonneg_def
      reservation_count_def)

lemma frame_qr_generate:
  "workshops (snd (qr_generate ttl now token userId workshopId s)) = workshops s"
  "reservations (snd (qr_generate ttl now token userId workshopId s)) = reservations s"
  by (simp_all add: qr_generate_def Let_def)

lemma frame_qr_validate:
  "workshops (snd (qr_validate now token s)) = workshops s"
  "reservations (snd (qr_validate now token s)) = reservations s"
  by (auto simp: qr_validate_def Let_def insert_attendance_def broadcastEvent_def
      split: option.splits)

lemma frame_qr_generate_workshop:
  "workshops (snd (qr_generate_workshop now rand token workshopId s)) = workshops s"
  "reservations (snd (qr_generate_workshop now rand token workshopId s)) = reservations s"
  by (auto simp: qr_generate_workshop_def Let_def insert_qr_def delete_qr_stale_def
      split: option.splits if_splits)

lemma frame_qr_validate_workshop:
  "workshops (snd (qr_validate_workshop now rand attendanceId eventId newToken token workshopId userId s)) = workshops s"
  "reservations (snd (qr_validate_workshop now rand attendanceId eventId newToken token workshopId userId s)) = reservations s"
  by (auto simp: qr_validate_workshop_def Let_def insert_qr_def insert_attendance_def
      delete_qr_def mark_used_def broadcastEvent_def
      split: option.splits if_splits)

lemma find_unique:
  "distinct (map f xs) \<Longrightarrow> find (\<lambda>x. f x = k) xs = Some y \<Longrightarrow> x \<in> set xs \<Longrightarrow> f x = k \<Longrightarrow> x = y"
proof -
  assume d: "distinct (map f xs)" and fy: "find (\<lambda>x. f x = k) xs = Some y"
    and x: "x \<in> set xs" "f x = k"
  from fy have "y \<in> set xs" "f y = k"
    by (auto simp: find_Some_iff)
  with d x show "x = y"
    by (auto simp: distinct_map inj_on_def)
qed

lemma ball_map_iff: "(\<forall>y \<in> set (map f xs). P y) = (\<forall>x \<in> set xs. P (f x))"
  by (induction xs) auto

lemma seat_values_eq:
  "(stored_integer av \<and> stored_integer tv \<and> to_number av \<noteq> NaN
      \<and> to_number av = number_minus (to_number tv) n)
   = (\<exists>a t. av = INTEGER a \<and> tv = INTEGER t \<and> int64 a \<and> int64 t \<and> a = t - int n)"
proof (cases av)
  case (INTEGER a)
  show ?thesis
  proof (cases tv)
    case (INTEGER t)
    have "(real_of_int a = real_of_int t - real n) = (a = t - int n)"
    proof -
      have "real_of_int t - real n = real_of_int (t - int n)" by simp
      then show ?thesis by (simp only: of_int_eq_iff)
    qed
    then show ?thesis using \<open>av = INTEGER a\<close> INTEGER by auto
  next
    case (REAL x)
    then show ?thesis by simp
  qed
next
  case (REAL x)
  then show ?thesis by simp
qed

lemma seat_row_eq_iff:
  "seat_row_eq n row
   = (stored_integer (availableSeats row) \<and> stored_integer (totalSeats row)
      \<and> to_number (availableSeats row) \<noteq> NaN
      \<and> to_number (availableSeats row) = number_minus (to_number (totalSeats row)) n)"
  unfolding seat_row_eq_def seat_values_eq by simp

lemma integral_consistent_rows:
  "(seats_integral w s \<and> seats_consistent w s)
   = (\<forall>row \<in> set (workshops s). w_id row = w \<longrightarrow> seat_row_eq (reservation_count w s) row)"
  unfolding seats_integral_def seats_consistent_def seat_row_eq_iff by blast

lemma ledger_ok_rows:
  "ledger_ok w s
   = (\<forall>row \<in> set (workshops s). w_id row = w \<longrightarrow> seat_row_ok (reservation_count w s) row)"
proof -
  have "ledger_ok w s = ((seats_integral w s \<and> seats_consistent w s) \<and> seats_nonneg w s)"
    by (auto simp: ledger_ok_def)
  then show ?thesis
    unfolding integral_consistent_rows seats_nonneg_def seat_row_ok_def by blast
qed

lemma sqlite_add_integer: "int64 (i + d) \<Longrightarrow> sqlite_add toDouble (INTEGER i) d = INTEGER (i + d)"
  by simp

lemma reservation_count_update_seats [simp]:
  "reservation_count w (update_seats toDouble k d s) = reservation_count w s"
  by (simp add: reservation_count_def update_seats_def)

lemma workshops_update_seats:
  "workshops (update_seats toDouble k d s)
   = map (\<lambda>x. if w_id x = k then x\<lparr>availableSeats := sqlite_add toDouble (availableSeats x) d\<rparr> else x)
       (workshops s)"
  by (simp add: update_seats_def)

lemma ledger_ok_events [simp]:
  "ledger_ok w (events_open c s) = ledger_ok w s"
  "ledger_ok w (events_close c s) = ledger_ok w s"
  "ledger_ok w (cleanup now s) = ledger_ok w s"
  by (auto simp: ledger_ok_def seats_integral_def seats_consistent_def seats_nonneg_def
      reservation_count_def events_open_def events_close_def cleanup_def)

lemma seat_row_ok_decrement:
  assumes "seat_row_ok n row" and "\<not> number_le (to_number (availableSeats row)) (Finite 0)"
  shows "seat_row_ok (Suc n) (row\<lparr>availableSeats := sqlite_add toDouble (availableSeats row) (- 1)\<rparr>)"
proof -
  from assms(1) obtain a t where r: "availableSeats row = INTEGER a" "totalSeats row = INTEGER t"
    "int64 a" "int64 t" "a = t - int n" "0 \<le> a"
    by (auto simp: seat_row_ok_def seat_row_eq_def)
  from assms(2) r(1) have pos: "0 < a" by simp
  with r(3) have "int64 (a + - 1)" by (simp add: int64_def)
  then have add: "sqlite_add toDouble (INTEGER a) (- 1) = INTEGER (a - 1)"
    using sqlite_add_integer [of a "- 1" toDouble] by simp
  show ?thesis
    using r pos add \<open>int64 (a + - 1)\<close>
    by (simp add: seat_row_ok_def seat_row_eq_def)
qed

lemma seat_row_eq_increment:
  assumes "seat_row_eq (Suc n) row"
  shows "seat_row_eq n (row\<lparr>availableSeats := sqlite_add toDouble (availableSeats row) 1\<rparr>)"
    and "number_le (to_number (sqlite_add toDouble (availableSeats row) 1)) (to_number (totalSeats row))"
proof -
  from assms obtain a t where r: "availableSeats row = INTEGER a" "totalSeats row = INTEGER t"
    "int64 a" "int64 t" "a = t - int (Suc n)"
    by (auto simp: seat_row_eq_def)
  have le: "a + 1 \<le> t" using r(5) by simp
  with r(3,4) have i: "int64 (a + 1)" by (simp add: int64_def)
  then have add: "sqlite_add toDouble (INTEGER a) 1 = INTEGER (a + 1)"
    by (rule sqlite_add_integer)
  show "seat_row_eq n (row\<lparr>availableSeats := sqlite_add toDouble (availableSeats row) 1\<rparr>)"
    using r i add by (simp add: seat_row_eq_def)
  show "number_le (to_number (sqlite_add toDouble (availableSeats row) 1)) (to_number (totalSeats row))"
    using r le add by simp
qed

lemma seat_row_ok_increment:
  assumes "seat_row_ok (Suc n) row"
  shows "seat_row_ok n (row\<lparr>availableSeats := sqlite_add toDouble (availableSeats row) 1\<rparr>)"
proof -
  from assms obtain a t where r: "availableSeats row = INTEGER a" "totalSeats row = INTEGER t"
    "int64 a" "int64 t" "a = t - int (Suc n)" "0 \<le> a"
    by (auto simp: seat_row_ok_def seat_row_eq_def)
  have le: "a + 1 \<le> t" using r(5) by simp
  with r(3,4) have i: "int64 (a + 1)" by (simp add: int64_def)
  then have add: "sqlite_add toDouble (INTEGER a) 1 = INTEGER (a + 1)"
    by (rule sqlite_add_integer)
  show ?thesis
    using r i add by (simp add: seat_row_ok_def seat_row_eq_def)
qed

lemma ledger_ok_post_reservations:
  assumes "schema_ok s" "ledger_ok w s"
  shows "ledger_ok w (snd (post_reservations toDouble parseDate now startOfToday userId workshopId s))"
proof -
  have d: "distinct (map w_id (workshops s))"
    using assms(1) by (simp add: schema_ok_def)
  have step: "ledger_ok w (update_seats toDouble workshopId (- 1) (s\<lparr>reservations := reservations s @ [row]\<rparr>))"
    if ws: "select_workshop workshopId s = Some workshop"
      and pos: "\<not> number_le (to_number (availableSeats workshop)) (Finite 0)"
      and row: "r_workshopId row = workshopId"
    for workshop row
  proof -
    have only: "x = workshop" if "x \<in> set (workshops s)" "w_id x = workshopId" for x
      using find_unique [OF d ws [unfolded select_workshop_def] that] .
    have cnt: "reservation_count w (s\<lparr>reservations := reservations s @ [row]\<rparr>)
               = (if w = workshopId then Suc (reservation_count w s) else reservation_count w s)"
      using row by (simp add: reservation_count_def)
    have old: "\<forall>x \<in> set (workshops s). w_id x = w \<longrightarrow> seat_row_ok (reservation_count w s) x"
      using assms(2) by (simp add: ledger_ok_rows)
    show ?thesis
      unfolding ledger_ok_rows workshops_update_seats ball_map_iff
    proof (intro ballI impI)
      fix x
      assume x: "x \<in> set (workshops (s\<lparr>reservations := reservations s @ [row]\<rparr>))"
        and id: "w_id (if w_id x = workshopId
                       then x\<lparr>availableSeats := sqlite_add toDouble (availableSeats x) (- 1)\<rparr> else x) = w"
      from x have xs: "x \<in> set (workshops s)" by simp
      from id have xw: "w_id x = w" by (simp split: if_splits)
      with old xs have ok: "seat_row_ok (reservation_count w s) x" by blast
      show "seat_row_ok
              (reservation_count w
                 (update_seats toDouble workshopId (- 1) (s\<lparr>reservations := reservations s @ [row]\<rparr>)))
              (if w_id x = workshopId
               then x\<lparr>availableSeats := sqlite_add toDouble (availableSeats x) (- 1)\<rparr> else x)"
      proof (cases "w = workshopId")
        case True
        with xw only [OF xs] have "x = workshop" by simp
        with pos have "\<not> number_le (to_number (availableSeats x)) (Finite 0)" by simp
        then have r: "seat_row_ok (Suc (reservation_count w s))
            (x\<lparr>availableSeats := sqlite_add toDouble (availableSeats x) (- 1)\<rparr>)"
          by (rule seat_row_ok_decrement [OF ok])
        have c: "reservation_count w
                 (update_seats toDouble workshopId (- 1) (s\<lparr>reservations := reservations s @ [row]\<rparr>))
                 = Suc (reservation_count w s)"
          using cnt True by simp
        have i: "w_id x = workshopId" using xw True by simp
        show ?thesis unfolding c using r i by simp
      next
        case False
        have c: "reservation_count w
                 (update_seats toDouble workshopId (- 1) (s\<lparr>reservations := reservations s @ [row]\<rparr>))
                 = reservation_count w s"
          using cnt False by simp
        have i: "w_id x \<noteq> workshopId" using xw False by simp
        show ?thesis unfolding c using ok i by simp
      qed
    qed
  qed
  show ?thesis
    using assms(2) step
    by (auto simp: post_reservations_def Let_def insert_reservation_def
        split: option.splits if_splits)
qed

lemma filter_is_remove1:
  "distinct (map f xs) \<Longrightarrow> x \<in> set xs \<Longrightarrow> filter (\<lambda>y. f y \<noteq> f x) xs = remove1 x xs"
proof (induction xs)
  case Nil
  then show ?case by simp
next
  case (Cons a xs)
  show ?case
  proof (cases "a = x")
    case True
    with Cons.prems have "filter (\<lambda>y. f y \<noteq> f x) xs = xs"
      by (auto simp: filter_id_conv image_iff)
    with True show ?thesis by simp
  next
    case False
    with Cons.prems have "f a \<noteq> f x" by (auto simp: image_iff)
    with Cons False show ?thesis by auto
  qed
qed

lemma cancel_count:
  assumes "distinct (map r_id (reservations s))"
    and "exists \<in> set (reservations s)" and "r_workshopId exists = workshopId"
  shows "reservation_count w s
         = (if w = workshopId then Suc (reservation_count w (delete_reservation (r_id exists) s))
            else reservation_count w (delete_reservation (r_id exists) s))"
proof -
  have "reservation_count w (delete_reservation (r_id exists) s)
        = reservation_count w s - (if w = workshopId then 1 else 0)"
    using filter_remove_id [OF assms(1,2), of "\<lambda>r. r_workshopId r = w"] assms(3)
    by (auto simp: reservation_count_def delete_reservation_def)
  moreover have "w = workshopId \<Longrightarrow> 0 < reservation_count w s"
    using assms(2,3) by (auto simp: reservation_count_def filter_empty_conv)
  ultimately show ?thesis by auto
qed

lemma cancel_state:
  assumes "userId \<noteq> []" and "workshopId \<noteq> []"
    and "select_reservation userId workshopId s = Some exists"
  shows "delete_reservations toDouble userId workshopId s
         = (Inr (select_workshop workshopId
                   (update_seats toDouble workshopId 1 (delete_reservation (r_id exists) s))),
            update_seats toDouble workshopId 1 (delete_reservation (r_id exists) s))"
  using assms by (simp add: delete_reservations_def Let_def)

lemma ledger_ok_delete_reservations:
  assumes "schema_ok s" "ledger_ok w s"
  shows "ledger_ok w (snd (delete_reservations toDouble userId workshopId s))"
proof (cases "userId = [] \<or> workshopId = []")
  case True
  then show ?thesis using assms(2) by (auto simp: delete_reservations_def)
next
  case False
  show ?thesis
  proof (cases "select_reservation userId workshopId s")
    case None
    then show ?thesis using assms(2) False by (simp add: delete_reservations_def)
  next
    case (Some exists)
    let ?s1 = "delete_reservation (r_id exists) s"
    have d: "distinct (map r_id (reservations s))"
      using assms(1) by (simp add: schema_ok_def)
    from Some have ex: "exists \<in> set (reservations s)" "r_workshopId exists = workshopId"
      by (auto simp: select_reservation_def find_Some_iff)
    note cnt = cancel_count [OF d ex, of w]
    have old: "\<forall>x \<in> set (workshops s). w_id x = w \<longrightarrow> seat_row_ok (reservation_count w s) x"
      using assms(2) by (simp add: ledger_ok_rows)
    have ws: "workshops ?s1 = workshops s"
      by (simp add: delete_reservation_def)
    have "ledger_ok w (update_seats toDouble workshopId 1 ?s1)"
      unfolding ledger_ok_rows workshops_update_seats ball_map_iff reservation_count_update_seats ws
    proof (intro ballI impI)
      fix x
      assume xs: "x \<in> set (workshops s)"
        and id: "w_id (if w_id x = workshopId
                       then x\<lparr>availableSeats := sqlite_add toDouble (availableSeats x) 1\<rparr> else x) = w"
      from id have xw: "w_id x = w" by (simp split: if_splits)
      with old xs have ok: "seat_row_ok (reservation_count w s) x" by blast
      show "seat_row_ok (reservation_count w ?s1)
              (if w_id x = workshopId
               then x\<lparr>availableSeats := sqlite_add toDouble (availableSeats x) 1\<rparr> else x)"
      proof (cases "w = workshopId")
        case True
        with cnt have "reservation_count w s = Suc (reservation_count w ?s1)" by simp
        with ok have "seat_row_ok (Suc (reservation_count w ?s1)) x" by simp
        then have "seat_row_ok (reservation_count w ?s1)
            (x\<lparr>availableSeats := sqlite_add toDouble (availableSeats x) 1\<rparr>)"
          by (rule seat_row_ok_increment)
        moreover have "w_id x = workshopId" using xw True by simp
        ultimately show ?thesis by simp
      next
        case False
        with cnt have "reservation_count w s = reservation_count w ?s1" by simp
        moreover have "w_id x \<noteq> workshopId" using xw False by simp
        ultimately show ?thesis using ok by simp
      qed
    qed
    then show ?thesis using cancel_state [OF _ _ Some] False by simp
  qed
qed

lemma ledger_ok_handle:
  assumes "schema_ok s" "ledger_ok w s" "\<not> creates_workshop req"
  shows "ledger_ok w (handle toDouble parseDate ttl req s)"
proof (cases req)
  case (PostWorkshops now body)
  then show ?thesis using assms(3) by simp
next
  case (PostReservations now startOfToday userId workshopId)
  then show ?thesis using assms ledger_ok_post_reservations by simp
next
  case (DeleteReservations userId workshopId)
  then show ?thesis using assms ledger_ok_delete_reservations by simp
next
  case (QrGenerate now token userId workshopId)
  then show ?thesis using assms(2) by (simp add: ledger_ok_frame [OF frame_qr_generate])
next
  case (QrValidate now token)
  then show ?thesis using assms(2) by (simp add: ledger_ok_frame [OF frame_qr_validate])
next
  case (QrGenerateWorkshop now rand token workshopId)
  then show ?thesis using assms(2) by (simp add: ledger_ok_frame [OF frame_qr_generate_workshop])
next
  case (QrValidateWorkshop now rand attendanceId eventId newToken token workshopId userId)
  then show ?thesis using assms(2) by (simp add: ledger_ok_frame [OF frame_qr_validate_workshop])
next
  case (EventsOpen client)
  then show ?thesis using assms(2) by simp
next
  case (EventsClose client)
  then show ?thesis using assms(2) by simp
next
  case (Cleanup now)
  then show ?thesis using assms(2) by simp
qed

lemma ledger_ok_run:
  "schema_ok s \<Longrightarrow> ledger_ok w s \<Longrightarrow> \<forall>req \<in> set reqs. \<not> creates_workshop req \<Longrightarrow>
   ledger_ok w (run toDouble parseDate ttl reqs s)"
proof (induction reqs arbitrary: s)
  case Nil
  then show ?case by simp
next
  case (Cons req reqs)
  then show ?case
    by (simp add: schema_ok_handle ledger_ok_handle)
qed

lemma ledger_ok_in_range: "ledger_ok w s \<Longrightarrow> seats_in_range w s"
  unfolding ledger_ok_rows seats_in_range_def
  by (auto simp: seat_row_ok_def seat_row_eq_def)

lemma String_of_5: "String_of 5 = ''5''"
  by (simp add: String_of_def decimal.simps digit_char_def)

lemma is_double_minus_half: "is_double (- (1 / 2))"
proof -
  have "\<bar>- 1 :: int\<bar> < 2 ^ 53" by simp
  moreover have "- (1 / 2) = real_of_int (- 1) * 2 powr real_of_int (- 1)"
    by (simp add: powr_minus)
  ultimately show ?thesis
    unfolding is_double_def by (intro exI [of _ "- 1"] conjI) simp_all
qed

lemma half_less_one: "sqlite_add toDouble (REAL (Finite (1 / 2))) (- 1) = REAL (Finite (- (1 / 2)))"
proof -
  have "double_of toDouble (1 / 2 + real_of_int (- 1)) = - (1 / 2)"
    using is_double_minus_half by (simp add: double_of_def)
  moreover have "\<lfloor>- (1 / 2) :: real\<rfloor> = - 1" by linarith
  ultimately show ?thesis by simp
qed

text \<open>
  Claim C1, as amended. Start from a database that satisfies the key constraints of the
  schema and in which, for workshop \<open>w\<close>, the seat counts are stored as integers,
  \<open>available = total - (active reservations)\<close> and \<open>0 \<le> available\<close>. Then after every
  request of any sequence of requests that creates no workshop (reservations,
  cancellations and all the token and event requests, on any workshop),
  \<open>0 \<le> available \<le> total\<close> and the equation hold for \<open>w\<close>, and its seat counts are still
  integers.
\<close>

theorem seat_ledger_invariant:
  assumes "schema_ok s" and "seats_integral w s" and "seats_consistent w s" and "seats_nonneg w s"
    and "\<forall>req \<in> set reqs. \<not> creates_workshop req"
  shows "seats_in_range w (run toDouble parseDate ttl (take n reqs) s)
         \<and> seats_consistent w (run toDouble parseDate ttl (take n reqs) s)
         \<and> seats_integral w (run toDouble parseDate ttl (take n reqs) s)"
proof -
  have "\<forall>req \<in> set (take n reqs). \<not> creates_workshop req"
    using assms(5) by (meson in_set_takeD)
  with assms(1-4) have ok: "ledger_ok w (run toDouble parseDate ttl (take n reqs) s)"
    by (intro ledger_ok_run) (simp_all add: ledger_ok_def)
  then show ?thesis
    using ledger_ok_in_range [OF ok] by (simp add: ledger_ok_def)
qed

lemma one_seat_created:
  "run no_rounding no_date 10000 [PostWorkshops 5 (workshop_body 1)] initial_state
   = initial_state\<lparr>workshops := workshops initial_state @ [workshop_with ''5'' 1 1]\<rparr>"
  by (simp add: initial_state_def workshop_body_def workshop_with_def post_workshops_def
      insert_workshop_def select_workshop_def String_of_5 Let_def)

lemma reserved_state_eq:
  "reserved_state
   = initial_state\<lparr>
       workshops := workshops initial_state @ [workshop_with ''5'' 0 1],
       reservations := [\<lparr>r_id = ''6'', r_userId = ''admin-1'', r_workshopId = ''5'', r_createdAt = 6\<rparr>]\<rparr>"
proof -
  have 6: "String_of 6 = ''6''"
    by (simp add: String_of_def decimal.simps digit_char_def)
  have "reserved_state
        = handle no_rounding no_date 10000 (PostReservations 6 0 ''admin-1'' ''5'')
            (run no_rounding no_date 10000 [PostWorkshops 5 (workshop_body 1)] initial_state)"
    by (simp add: reserved_state_def)
  then show ?thesis
    unfolding one_seat_created
    by (simp add: initial_state_def workshop_with_def post_reservations_def select_user_def
        select_workshop_def select_reservation_def insert_reservation_def update_seats_def
        no_date_def int64_def 6 Let_def)
qed

text \<open>
  The theorem at a concrete run: a workshop with one seat is created, reserved and
  cancelled.
\<close>

theorem seat_ledger_invariant_witness:
  "schema_ok (run no_rounding no_date 10000 [PostWorkshops 5 (workshop_body 1)] initial_state)
   \<and> seats_integral ''5'' (run no_rounding no_date 10000 [PostWorkshops 5 (workshop_body 1)] initial_state)
   \<and> seats_consistent ''5'' (run no_rounding no_date 10000 [PostWorkshops 5 (workshop_body 1)] initial_state)
   \<and> seats_nonneg ''5'' (run no_rounding no_date 10000 [PostWorkshops 5 (workshop_body 1)] initial_state)
   \<and> seats_in_range ''5''
        (run no_rounding no_date 10000
           [PostWorkshops 5 (workshop_body 1), PostReservations 6 0 ''admin-1'' ''5'',
            DeleteReservations ''admin-1'' ''5''] initial_state)
   \<and> seats_consistent ''5''
        (run no_rounding no_date 10000
           [PostWorkshops 5 (workshop_body 1), PostReservations 6 0 ''admin-1'' ''5'',
            DeleteReservations ''admin-1'' ''5''] initial_state)"
proof -
  let ?s0 = "run no_rounding no_date 10000 [PostWorkshops 5 (workshop_body 1)] initial_state"
  have h: "schema_ok ?s0" "seats_integral ''5'' ?s0" "seats_consistent ''5'' ?s0" "seats_nonneg ''5'' ?s0"
    unfolding one_seat_created
    by (simp_all add: initial_state_def workshop_with_def schema_ok_def seats_integral_def
        seats_consistent_def seats_nonneg_def reservation_count_def int64_def)
  have r: "run no_rounding no_date 10000
             (take 2 [PostReservations 6 0 ''admin-1'' ''5'', DeleteReservations ''admin-1'' ''5'']) ?s0
           = run no_rounding no_date 10000
               [PostWorkshops 5 (workshop_body 1), PostReservations 6 0 ''admin-1'' ''5'',
                DeleteReservations ''admin-1'' ''5''] initial_state"
    by (simp add: numeral_2_eq_2)
  show ?thesis
    using h seat_ledger_invariant
      [of ?s0 "''5''" "[PostReservations 6 0 ''admin-1'' ''5'', DeleteReservations ''admin-1'' ''5'']"
         no_rounding no_date 10000 2]
    unfolding r by simp
qed

text \<open>
  Claim C1 as stated asks only for the equation at the start. \<^verbatim>\<open>POST /workshops\<close> stores
  \<^verbatim>\<open>Number(totalSeats)\<close> whatever the number is. With \<^verbatim>\<open>totalSeats = 0.5\<close> the workshop
  starts with \<open>available = total = 0.5\<close> and no reservation, so the equation and the
  bounds hold; the guard \<^verbatim>\<open>availableSeats <= 0\<close> lets the reservation through and the
  decrement leaves \<open>available = -0.5\<close> (the sum is exact, so the rounding parameter plays
  no part). With \<^verbatim>\<open>totalSeats = -1\<close> the equation holds with \<open>available = -1\<close>, and the
  reservation that follows is refused with \<open>Full\<close>.
\<close>

theorem seat_bounds_counterexample:
  "schema_ok (run no_rounding no_date 10000 [PostWorkshops 5 (workshop_body (1 / 2))] initial_state)
   \<and> seats_consistent ''5''
        (run no_rounding no_date 10000 [PostWorkshops 5 (workshop_body (1 / 2))] initial_state)
   \<and> seats_in_range ''5''
        (run no_rounding no_date 10000 [PostWorkshops 5 (workshop_body (1 / 2))] initial_state)
   \<and> map availableSeats
        (workshops (run no_rounding no_date 10000
           [PostWorkshops 5 (workshop_body (1 / 2)), PostReservations 6 0 ''admin-1'' ''5'']
           initial_state))
       = [INTEGER 8, REAL (Finite (- (1 / 2)))]
   \<and> \<not> seats_in_range ''5''
        (run no_rounding no_date 10000
           [PostWorkshops 5 (workshop_body (1 / 2)), PostReservations 6 0 ''admin-1'' ''5'']
           initial_state)
   \<and> schema_ok (run no_rounding no_date 10000 [PostWorkshops 5 (workshop_body (- 1))] initial_state)
   \<and> seats_consistent ''5''
        (run no_rounding no_date 10000 [PostWorkshops 5 (workshop_body (- 1))] initial_state)
   \<and> fst (post_reservations no_rounding no_date 6 0 ''admin-1'' ''5''
            (run no_rounding no_date 10000 [PostWorkshops 5 (workshop_body (- 1))] initial_state))
       = Inl Full
   \<and> \<not> seats_in_range ''5''
        (run no_rounding no_date 10000
           [PostWorkshops 5 (workshop_body (- 1)), PostReservations 6 0 ''admin-1'' ''5'']
           initial_state)"
proof -
  have 6: "String_of 6 = ''6''"
    by (simp add: String_of_def decimal.simps digit_char_def)
  have fl: "\<lfloor>1 / 2 :: real\<rfloor> = 0" by linarith
  have half: "run no_rounding no_date 10000 [PostWorkshops 5 (workshop_body (1 / 2))] initial_state
      = initial_state\<lparr>workshops := workshops initial_state
          @ [(workshop_with ''5'' 0 0)\<lparr>availableSeats := REAL (Finite (1 / 2)),
                                        totalSeats := REAL (Finite (1 / 2))\<rparr>]\<rparr>"
    by (simp add: initial_state_def workshop_body_def workshop_with_def post_workshops_def
        insert_workshop_def select_workshop_def String_of_5 Let_def fl)
  have half_reserved: "run no_rounding no_date 10000
           [PostWorkshops 5 (workshop_body (1 / 2)), PostReservations 6 0 ''admin-1'' ''5'']
           initial_state
      = initial_state\<lparr>
          workshops := workshops initial_state
            @ [(workshop_with ''5'' 0 0)\<lparr>availableSeats := REAL (Finite (- (1 / 2))),
                                          totalSeats := REAL (Finite (1 / 2))\<rparr>],
          reservations := [\<lparr>r_id = ''6'', r_userId = ''admin-1'', r_workshopId = ''5'',
                             r_createdAt = 6\<rparr>]\<rparr>"
  proof -
    have "run no_rounding no_date 10000
           [PostWorkshops 5 (workshop_body (1 / 2)), PostReservations 6 0 ''admin-1'' ''5'']
           initial_state
          = handle no_rounding no_date 10000 (PostReservations 6 0 ''admin-1'' ''5'')
              (run no_rounding no_date 10000 [PostWorkshops 5 (workshop_body (1 / 2))] initial_state)"
      by simp
    then show ?thesis
      unfolding half
      by (simp add: initial_state_def workshop_with_def post_reservations_def select_user_def
          select_workshop_def select_reservation_def insert_reservation_def update_seats_def
          no_date_def int64_def 6 Let_def half_less_one del: sqlite_add.simps)
  qed
  have fm: "\<lfloor>- 1 :: real\<rfloor> = - 1" by linarith
  have neg: "run no_rounding no_date 10000 [PostWorkshops 5 (workshop_body (- 1))] initial_state
      = initial_state\<lparr>workshops := workshops initial_state @ [workshop_with ''5'' (- 1) (- 1)]\<rparr>"
    by (simp add: initial_state_def workshop_body_def workshop_with_def post_workshops_def
        insert_workshop_def select_workshop_def String_of_5 Let_def fm)
  have full: "post_reservations no_rounding no_date 6 0 ''admin-1'' ''5''
            (initial_state\<lparr>workshops := workshops initial_state @ [workshop_with ''5'' (- 1) (- 1)]\<rparr>)
       = (Inl Full, initial_state\<lparr>workshops := workshops initial_state @ [workshop_with ''5'' (- 1) (- 1)]\<rparr>)"
    by (simp add: initial_state_def workshop_with_def post_reservations_def select_user_def
        select_workshop_def no_date_def)
  have neg_refused: "run no_rounding no_date 10000
           [PostWorkshops 5 (workshop_body (- 1)), PostReservations 6 0 ''admin-1'' ''5'']
           initial_state
      = initial_state\<lparr>workshops := workshops initial_state @ [workshop_with ''5'' (- 1) (- 1)]\<rparr>"
  proof -
    have "run no_rounding no_date 10000
           [PostWorkshops 5 (workshop_body (- 1)), PostReservations 6 0 ''admin-1'' ''5'']
           initial_state
          = handle no_rounding no_date 10000 (PostReservations 6 0 ''admin-1'' ''5'')
              (run no_rounding no_date 10000 [PostWorkshops 5 (workshop_body (- 1))] initial_state)"
      by simp
    then show ?thesis unfolding neg by (simp add: full)
  qed
  show ?thesis
    unfolding half half_reserved neg neg_refused full
    by (simp add: initial_state_def workshop_with_def schema_ok_def seats_consistent_def
        seats_in_range_def reservation_count_def)
qed

text \<open>
  Claim C3, as amended. \<^verbatim>\<open>DELETE /reservations\<close> answers \<open>BadRequest\<close> when an id is
  empty, and for non-empty ids \<open>NotFound\<close>, changing nothing, when the pair has no
  reservation. Otherwise it removes exactly that reservation and replaces
  \<open>availableSeats\<close> of the workshop by SQLite's \<^verbatim>\<open>availableSeats+1\<close>, in one step and
  without any cap. For a count stored as an integer below the greatest 64-bit integer
  that is the count plus exactly 1. When the seat counts are integers with
  \<open>available = total - (active reservations)\<close> before, both still hold afterwards and
  \<open>available \<le> total\<close>.
\<close>

theorem cancel_increments_by_one:
  assumes "schema_ok s"
  shows "(userId = [] \<or> workshopId = [] \<longrightarrow>
            delete_reservations toDouble userId workshopId s = (Inl BadRequest, s))
         \<and> (userId \<noteq> [] \<and> workshopId \<noteq> [] \<and> select_reservation userId workshopId s = None \<longrightarrow>
            delete_reservations toDouble userId workshopId s = (Inl NotFound, s))
         \<and> (\<forall>exists. userId \<noteq> [] \<and> workshopId \<noteq> []
               \<and> select_reservation userId workshopId s = Some exists \<longrightarrow>
               fst (delete_reservations toDouble userId workshopId s)
                 = Inr (select_workshop workshopId (snd (delete_reservations toDouble userId workshopId s)))
               \<and> reservations (snd (delete_reservations toDouble userId workshopId s))
                   = remove1 exists (reservations s)
               \<and> select_reservation userId workshopId
                    (snd (delete_reservations toDouble userId workshopId s)) = None
               \<and> workshops (snd (delete_reservations toDouble userId workshopId s))
                   = map (\<lambda>w. if w_id w = workshopId
                              then w\<lparr>availableSeats := sqlite_add toDouble (availableSeats w) 1\<rparr>
                              else w)
                       (workshops s)
               \<and> (\<forall>a. int64 a \<and> a < 2 ^ 63 - 1 \<longrightarrow>
                      sqlite_add toDouble (INTEGER a) 1 = INTEGER (a + 1))
               \<and> (seats_integral workshopId s \<and> seats_consistent workshopId s \<longrightarrow>
                    seats_integral workshopId (snd (delete_reservations toDouble userId workshopId s))
                    \<and> seats_consistent workshopId (snd (delete_reservations toDouble userId workshopId s))
                    \<and> (\<forall>w \<in> set (workshops (snd (delete_reservations toDouble userId workshopId s))).
                          w_id w = workshopId \<longrightarrow>
                          number_le (to_number (availableSeats w)) (to_number (totalSeats w)))))"
proof (intro conjI allI impI)
  assume "userId = [] \<or> workshopId = []"
  then show "delete_reservations toDouble userId workshopId s = (Inl BadRequest, s)"
    by (auto simp: delete_reservations_def)
next
  assume "userId \<noteq> [] \<and> workshopId \<noteq> [] \<and> select_reservation userId workshopId s = None"
  then show "delete_reservations toDouble userId workshopId s = (Inl NotFound, s)"
    by (simp add: delete_reservations_def)
next
  fix exists
  assume a: "userId \<noteq> [] \<and> workshopId \<noteq> [] \<and> select_reservation userId workshopId s = Some exists"
  then have ex: "select_reservation userId workshopId s = Some exists" by simp
  let ?s1 = "delete_reservation (r_id exists) s"
  let ?s' = "snd (delete_reservations toDouble userId workshopId s)"
  have st: "delete_reservations toDouble userId workshopId s
            = (Inr (select_workshop workshopId (update_seats toDouble workshopId 1 ?s1)),
               update_seats toDouble workshopId 1 ?s1)"
    using a by (intro cancel_state) simp_all
  then have s': "?s' = update_seats toDouble workshopId 1 ?s1" by simp
  have d: "distinct (map r_id (reservations s))"
    and u: "distinct (map (\<lambda>r. (r_userId r, r_workshopId r)) (reservations s))"
    using assms by (simp_all add: schema_ok_def)
  from ex have mem: "exists \<in> set (reservations s)"
    and key: "r_userId exists = userId" "r_workshopId exists = workshopId"
    by (auto simp: select_reservation_def find_Some_iff)
  show "fst (delete_reservations toDouble userId workshopId s) = Inr (select_workshop workshopId ?s')"
    by (simp add: st)
  show rs: "reservations ?s' = remove1 exists (reservations s)"
    unfolding s' using filter_is_remove1 [OF d mem]
    by (simp add: update_seats_def delete_reservation_def)
  show "select_reservation userId workshopId ?s' = None"
  proof -
    have "\<not> (\<exists>x \<in> set (remove1 exists (reservations s)). r_userId x = userId \<and> r_workshopId x = workshopId)"
    proof
      assume "\<exists>x \<in> set (remove1 exists (reservations s)). r_userId x = userId \<and> r_workshopId x = workshopId"
      then obtain x where x: "x \<in> set (remove1 exists (reservations s))"
        "r_userId x = userId" "r_workshopId x = workshopId" by blast
      have dr: "distinct (reservations s)" using d by (simp add: distinct_map)
      from x(1) dr have "x \<in> set (reservations s)" "x \<noteq> exists" by auto
      with u mem key x(2,3) show False
        by (auto simp: distinct_map inj_on_def)
    qed
    then show ?thesis
      unfolding select_reservation_def rs by (auto simp: find_None_iff)
  qed
  show ws: "workshops ?s' = map (\<lambda>w. if w_id w = workshopId
                              then w\<lparr>availableSeats := sqlite_add toDouble (availableSeats w) 1\<rparr>
                              else w)
                       (workshops s)"
    unfolding s' by (simp add: update_seats_def delete_reservation_def)
  show "sqlite_add toDouble (INTEGER a) 1 = INTEGER (a + 1)" if "int64 a \<and> a < 2 ^ 63 - 1" for a
    using that by (intro sqlite_add_integer) (simp add: int64_def)
  assume c: "seats_integral workshopId s \<and> seats_consistent workshopId s"
  have cnt: "reservation_count workshopId s = Suc (reservation_count workshopId ?s')"
    using cancel_count [OF d mem key(2), of workshopId] unfolding s' by simp
  have old: "\<forall>row \<in> set (workshops s). w_id row = workshopId \<longrightarrow>
      seat_row_eq (Suc (reservation_count workshopId ?s')) row"
    using c unfolding integral_consistent_rows cnt .
  have new: "\<forall>row \<in> set (workshops ?s'). w_id row = workshopId \<longrightarrow>
      seat_row_eq (reservation_count workshopId ?s') row
      \<and> number_le (to_number (availableSeats row)) (to_number (totalSeats row))"
    unfolding ws ball_map_iff
  proof (intro ballI impI)
    fix x
    assume xs: "x \<in> set (workshops s)"
      and "w_id (if w_id x = workshopId
                 then x\<lparr>availableSeats := sqlite_add toDouble (availableSeats x) 1\<rparr> else x) = workshopId"
    then have xw: "w_id x = workshopId" by (simp split: if_splits)
    with old xs have e: "seat_row_eq (Suc (reservation_count workshopId ?s')) x" by blast
    from seat_row_eq_increment [OF e, of toDouble] xw
    show "seat_row_eq (reservation_count workshopId ?s')
            (if w_id x = workshopId
             then x\<lparr>availableSeats := sqlite_add toDouble (availableSeats x) 1\<rparr> else x)
          \<and> number_le
              (to_number (availableSeats (if w_id x = workshopId
                 then x\<lparr>availableSeats := sqlite_add toDouble (availableSeats x) 1\<rparr> else x)))
              (to_number (totalSeats (if w_id x = workshopId
                 then x\<lparr>availableSeats := sqlite_add toDouble (availableSeats x) 1\<rparr> else x)))"
      by simp
  qed
  then have "seats_integral workshopId ?s' \<and> seats_consistent workshopId ?s'"
    unfolding integral_consistent_rows by blast
  then show "seats_integral workshopId ?s'" and "seats_consistent workshopId ?s'"
    by simp_all
  show "\<forall>w \<in> set (workshops ?s'). w_id w = workshopId \<longrightarrow>
          number_le (to_number (availableSeats w)) (to_number (totalSeats w))"
    using new by blast
qed

text \<open>
  Claim C3 as stated has the increment capped at \<open>total\<close>. The statement
  \<^verbatim>\<open>UPDATE workshops SET availableSeats=availableSeats+1\<close> has no cap: with
  \<open>available = total = 1\<close> and an active reservation, the cancellation leaves
  \<open>available = 2\<close>.
\<close>

theorem cancel_cap_counterexample:
  "schema_ok overbooked_state
   \<and> select_reservation ''admin-1'' ''7'' overbooked_state \<noteq> None
   \<and> map totalSeats (workshops overbooked_state) = [INTEGER 1]
   \<and> map availableSeats (workshops overbooked_state) = [INTEGER 1]
   \<and> map availableSeats
        (workshops (snd (delete_reservations no_rounding ''admin-1'' ''7'' overbooked_state)))
       = [INTEGER 2]"
  by (simp add: overbooked_state_def initial_state_def workshop_with_def schema_ok_def
      select_reservation_def delete_reservations_def update_seats_def delete_reservation_def
      int64_def Let_def)

text \<open>
  The theorem on the database in which the one seat of workshop 5 is reserved: the
  equation holds before and after the cancellation, which gives the seat back; a pair
  without a reservation and an empty id are refused.
\<close>

theorem cancel_increments_by_one_witness:
  "schema_ok reserved_state
   \<and> seats_integral ''5'' reserved_state
   \<and> seats_consistent ''5'' reserved_state
   \<and> select_reservation ''admin-1'' ''5'' reserved_state
       = Some \<lparr>r_id = ''6'', r_userId = ''admin-1'', r_workshopId = ''5'', r_createdAt = 6\<rparr>
   \<and> reservations (snd (delete_reservations no_rounding ''admin-1'' ''5'' reserved_state)) = []
   \<and> map availableSeats
        (workshops (snd (delete_reservations no_rounding ''admin-1'' ''5'' reserved_state)))
       = [INTEGER 8, INTEGER 1]
   \<and> seats_consistent ''5'' (snd (delete_reservations no_rounding ''admin-1'' ''5'' reserved_state))
   \<and> delete_reservations no_rounding ''admin-1'' ''1'' reserved_state = (Inl NotFound, reserved_state)
   \<and> delete_reservations no_rounding [] ''5'' reserved_state = (Inl BadRequest, reserved_state)"
proof -
  have h: "schema_ok reserved_state" "seats_integral ''5'' reserved_state"
    "seats_consistent ''5'' reserved_state"
    "select_reservation ''admin-1'' ''5'' reserved_state
       = Some \<lparr>r_id = ''6'', r_userId = ''admin-1'', r_workshopId = ''5'', r_createdAt = 6\<rparr>"
    "select_reservation ''admin-1'' ''1'' reserved_state = None"
    unfolding reserved_state_eq
    by (simp_all add: initial_state_def workshop_with_def schema_ok_def seats_integral_def
        seats_consistent_def reservation_count_def select_reservation_def int64_def)
  have ws: "map availableSeats (workshops reserved_state) = [INTEGER 8, INTEGER 0]"
    unfolding reserved_state_eq by (simp add: initial_state_def workshop_with_def)
  have ids: "map w_id (workshops reserved_state) = [''1'', ''5'']"
    unfolding reserved_state_eq by (simp add: initial_state_def workshop_with_def)
  have rs: "reservations reserved_state
            = [\<lparr>r_id = ''6'', r_userId = ''admin-1'', r_workshopId = ''5'', r_createdAt = 6\<rparr>]"
    unfolding reserved_state_eq by simp
  note t1 = cancel_increments_by_one [OF h(1), of "''admin-1''" "''5''" no_rounding]
  note t2 = cancel_increments_by_one [OF h(1), of "''admin-1''" "''1''" no_rounding]
  note t3 = cancel_increments_by_one [OF h(1), of "[]" "''5''" no_rounding]
  have av: "map availableSeats
        (workshops (snd (delete_reservations no_rounding ''admin-1'' ''5'' reserved_state)))
       = [INTEGER 8, INTEGER 1]"
  proof -
    have "workshops (snd (delete_reservations no_rounding ''admin-1'' ''5'' reserved_state))
          = map (\<lambda>w. if w_id w = ''5''
                      then w\<lparr>availableSeats := sqlite_add no_rounding (availableSeats w) 1\<rparr> else w)
              (workshops reserved_state)"
      using t1 h(4) by simp
    then show ?thesis
      unfolding reserved_state_eq
      by (simp add: initial_state_def workshop_with_def int64_def)
  qed
  show ?thesis
    using h av t1 t2 t3 rs by simp
qed

section \<open>The token store\<close>

lemma find_append:
  "find P (xs @ ys) = (case find P xs of None \<Rightarrow> find P ys | Some x \<Rightarrow> Some x)"
  by (induction xs) auto

lemma select_qr_None:
  "(select_qr token workshopId s = None)
     = (\<forall>q \<in> set (qr_tokens s). q_token q = token \<longrightarrow> q_workshopId q \<noteq> workshopId)"
  by (auto simp: select_qr_def find_None_iff)

lemma select_qr_delete_qr: "select_qr token w (delete_qr token s) = None"
  by (auto simp: select_qr_def delete_qr_def find_None_iff)

lemma insert_attendance_Some:
  "insert_attendance a s = Some s1 \<Longrightarrow> s1 = s\<lparr>attendance := attendance s @ [a]\<rparr>"
  by (auto simp: insert_attendance_def split: if_splits)

lemma insert_qr_Some:
  "insert_qr q s = Some s1 \<Longrightarrow> s1 = s\<lparr>qr_tokens := qr_tokens s @ [q]\<rparr>"
  by (auto simp: insert_qr_def split: if_splits)

lemma select_qr_mark_used:
  "select_qr token w (mark_used token s) = map_option (\<lambda>q. q\<lparr>q_used := True\<rparr>) (select_qr token w s)"
proof -
  have "find (\<lambda>q. q_token q = token \<and> q_workshopId q = w)
          (map (\<lambda>q. if q_token q = token then q\<lparr>q_used := True\<rparr> else q) xs)
        = map_option (\<lambda>q. q\<lparr>q_used := True\<rparr>) (find (\<lambda>q. q_token q = token \<and> q_workshopId q = w) xs)"
    for xs :: "qr_row list"
    by (induction xs) auto
  then show ?thesis by (simp add: select_qr_def mark_used_def)
qed

lemma qr_tokens_frames [simp]:
  "qr_tokens (broadcastEvent e d s) = qr_tokens s"
  "attendance (broadcastEvent e d s) = attendance s"
  "sseClients (broadcastEvent e d s) = sseClients s"
  "workshops (broadcastEvent e d s) = workshops s"
  "users (broadcastEvent e d s) = users s"
  "reservations (broadcastEvent e d s) = reservations s"
  "qrTokens (broadcastEvent e d s) = qrTokens s"
  "attendance (mark_used t s) = attendance s"
  "workshops (mark_used t s) = workshops s"
  "users (mark_used t s) = users s"
  "reservations (mark_used t s) = reservations s"
  "sseClients (mark_used t s) = sseClients s"
  "sent (mark_used t s) = sent s"
  "qrTokens (mark_used t s) = qrTokens s"
  by (simp_all add: broadcastEvent_def mark_used_def)

lemma select_frames [simp]:
  "select_qr t w (broadcastEvent e d s) = select_qr t w s"
  "select_workshop w (broadcastEvent e d s) = select_workshop w s"
  "select_workshop w (mark_used t s) = select_workshop w s"
  by (simp_all add: select_qr_def select_workshop_def)

text \<open>
  Claim C2, as amended. In \<^verbatim>\<open>POST /qr/validate-workshop\<close>, once the fields, the user and
  the reservation have been checked, the token is checked in this order: no row with this
  token and this workshop gives \<open>InvalidToken\<close>; a row with \<open>used\<close> set gives
  \<open>AlreadyUsed\<close> (also when it is expired); a row past \<open>expiresAt\<close> gives
  \<open>TokenExpired\<close> and is deleted. A token that passes is marked \<open>used\<close> only when the
  user has no attendance record yet, in the transaction that inserts the record; when the
  user has one, the attempt fails with \<open>AlreadyCheckedIn\<close> and nothing is written.
\<close>

theorem consume_check_order:
  assumes "token \<noteq> []" and "workshopId \<noteq> []" and "userId \<noteq> []"
    and "select_user userId s = Some user"
    and "select_reservation userId workshopId s \<noteq> None"
  shows
    "((\<forall>q \<in> set (qr_tokens s). q_token q = token \<longrightarrow> q_workshopId q \<noteq> workshopId) \<longrightarrow>
        qr_validate_workshop now rand attendanceId eventId newToken token workshopId userId s
          = (Inl InvalidToken, s))
     \<and> (\<forall>qrData. select_qr token workshopId s = Some qrData \<longrightarrow>
          (q_used qrData \<longrightarrow>
             qr_validate_workshop now rand attendanceId eventId newToken token workshopId userId s
               = (Inl AlreadyUsed, s))
          \<and> (\<not> q_used qrData \<and> q_expiresAt qrData < now \<longrightarrow>
               qr_validate_workshop now rand attendanceId eventId newToken token workshopId userId s
                 = (Inl TokenExpired, delete_qr token s)
               \<and> select_qr token workshopId (delete_qr token s) = None)
          \<and> (\<not> q_used qrData \<and> \<not> q_expiresAt qrData < now
               \<and> select_attendance userId workshopId s \<noteq> None \<longrightarrow>
               qr_validate_workshop now rand attendanceId eventId newToken token workshopId userId s
                 = (Inl AlreadyCheckedIn, s))
          \<and> (\<not> q_used qrData \<and> \<not> q_expiresAt qrData < now
               \<and> select_attendance userId workshopId s = None
               \<and> insert_attendance \<lparr>a_id = attendanceId, a_userId = userId, a_workshopId = workshopId,
                                     a_checkedInAt = now\<rparr> s \<noteq> None \<longrightarrow>
               select_qr token workshopId
                 (snd (qr_validate_workshop now rand attendanceId eventId newToken token workshopId userId s))
                 = Some (qrData\<lparr>q_used := True\<rparr>)
               \<and> (newToken \<notin> set (map q_token (qr_tokens s)) \<longrightarrow>
                    fst (qr_validate_workshop now rand attendanceId eventId newToken token workshopId userId s)
                      = Inr (user, workshopId, now, newToken, now + rand + 10000))))"
proof (intro conjI allI impI, goal_cases)
  case 1
  then have "select_qr token workshopId s = None" by (simp add: select_qr_None)
  then show ?case using assms by (auto simp: qr_validate_workshop_def)
next
  case (2 qrData)
  then show ?case using assms by (auto simp: qr_validate_workshop_def)
next
  case (3 qrData)
  then show ?case using assms by (auto simp: qr_validate_workshop_def)
next
  case (4 qrData)
  then show ?case by (simp add: select_qr_delete_qr)
next
  case (5 qrData)
  then show ?case using assms by (auto simp: qr_validate_workshop_def)
next
  case (6 qrData)
  then obtain s1 where s1: "insert_attendance \<lparr>a_id = attendanceId, a_userId = userId,
      a_workshopId = workshopId, a_checkedInAt = now\<rparr> s = Some s1" by auto
  have q1: "qr_tokens s1 = qr_tokens s" using insert_attendance_Some [OF s1] by simp
  have sel: "select_qr token workshopId (mark_used token s1) = Some (qrData\<lparr>q_used := True\<rparr>)"
    using 6 q1 by (simp add: select_qr_mark_used) (simp add: select_qr_def)
  show ?case
    using assms 6 s1 sel
    by (auto simp: qr_validate_workshop_def Let_def select_qr_def find_append
        split: option.splits dest!: insert_qr_Some)
next
  case (7 qrData)
  then obtain s1 where s1: "insert_attendance \<lparr>a_id = attendanceId, a_userId = userId,
      a_workshopId = workshopId, a_checkedInAt = now\<rparr> s = Some s1" by auto
  have e1: "s1 = s\<lparr>attendance := attendance s @ [\<lparr>a_id = attendanceId, a_userId = userId,
      a_workshopId = workshopId, a_checkedInAt = now\<rparr>]\<rparr>"
    using insert_attendance_Some [OF s1] .
  have w: "select_workshop workshopId s \<noteq> None"
    using s1 by (auto simp: insert_attendance_def split: if_splits)
  have fresh: "newToken \<notin> set (map q_token (qr_tokens (mark_used token s1)))"
    using 7 e1 by (simp add: mark_used_def map_q_token_update)
  have ins: "insert_qr \<lparr>q_token = newToken, q_workshopId = workshopId, q_createdAt = now,
               q_expiresAt = now + rand + 10000, q_used = False\<rparr>
               (broadcastEvent ev2 d2 (broadcastEvent ev1 d1 (mark_used token s1))) \<noteq> None" for ev1 d1 ev2 d2
    using fresh w e1 by (simp add: insert_qr_def select_workshop_def)
  show ?case
    using assms 7 s1 ins
    by (auto simp: qr_validate_workshop_def Let_def split: option.splits)
qed

lemma demo_simps:
  "select_user ''u1'' demo_state = Some \<lparr>u_id = ''u1'', u_name = ''Ann'', u_email = ''ann@example.org''\<rparr>"
  "select_user ''u2'' demo_state = Some \<lparr>u_id = ''u2'', u_name = ''Bob'', u_email = ''bob@example.org''\<rparr>"
  "select_reservation ''u1'' ''w1'' demo_state \<noteq> None"
  "select_reservation ''u2'' ''w1'' demo_state \<noteq> None"
  "select_attendance ''u1'' ''w1'' demo_state \<noteq> None"
  "select_attendance ''u2'' ''w1'' demo_state = None"
  "select_qr ''T'' ''w1'' demo_state = Some \<lparr>q_token = ''T'', q_workshopId = ''w1'', q_createdAt = 90,
      q_expiresAt = 10090, q_used = False\<rparr>"
  "select_workshop ''w1'' demo_state \<noteq> None"
  by (simp_all add: demo_state_def select_user_def select_reservation_def select_attendance_def
      select_qr_def select_workshop_def workshop_with_def)

text \<open>The theorem for an unknown token, an expired token and a token that is accepted.\<close>

theorem consume_check_order_witness:
  "qr_validate_workshop 100 0 ''a2'' ''e2'' ''T2'' ''X'' ''w1'' ''u2'' demo_state
     = (Inl InvalidToken, demo_state)
   \<and> qr_validate_workshop 20000 0 ''a2'' ''e2'' ''T2'' ''T'' ''w1'' ''u2'' demo_state
     = (Inl TokenExpired, delete_qr ''T'' demo_state)
   \<and> fst (qr_validate_workshop 100 0 ''a2'' ''e2'' ''T2'' ''T'' ''w1'' ''u2'' demo_state)
     = Inr (\<lparr>u_id = ''u2'', u_name = ''Bob'', u_email = ''bob@example.org''\<rparr>, ''w1'', 100, ''T2'', 10100)"
  using consume_check_order [of "''X''" "''w1''" "''u2''" demo_state _ 100 0 "''a2''" "''e2''" "''T2''"]
    consume_check_order [of "''T''" "''w1''" "''u2''" demo_state _ 20000 0 "''a2''" "''e2''" "''T2''"]
    consume_check_order [of "''T''" "''w1''" "''u2''" demo_state _ 100 0 "''a2''" "''e2''" "''T2''"]
  by (simp add: demo_simps)
    (simp add: demo_state_def insert_attendance_def select_attendance_def select_user_def
      select_workshop_def workshop_with_def)

text \<open>
  Claim C2 as stated lets every known, unused, unexpired token succeed and be marked
  used. Here such a token is presented by a user who has already checked in: the attempt
  fails and the token row is unchanged.
\<close>

theorem consume_success_counterexample:
  "select_qr ''T'' ''w1'' demo_state
     = Some \<lparr>q_token = ''T'', q_workshopId = ''w1'', q_createdAt = 90, q_expiresAt = 10090, q_used = False\<rparr>
   \<and> \<not> (10090 :: int) < 100
   \<and> qr_validate_workshop 100 0 ''a2'' ''e2'' ''T2'' ''T'' ''w1'' ''u1'' demo_state
       = (Inl AlreadyCheckedIn, demo_state)"
  by (simp add: qr_validate_workshop_def demo_simps)

section \<open>The check-in coordinator\<close>

text \<open>
  Claim C5, as amended. In the user-scoped check-in, a failure with \<open>AlreadyCheckedIn\<close>
  has deleted the token: every later validation of it, at any time, fails with
  \<open>InvalidToken\<close>. In the workshop-scoped check-in, a failure with \<open>AlreadyCheckedIn\<close>
  writes nothing: the token row is still there, unused and unexpired.
\<close>

theorem already_checked_in_token_fate:
  "(fst (qr_validate now token s) = Inl AlreadyCheckedIn \<longrightarrow>
      qrTokens (snd (qr_validate now token s)) token = None
      \<and> qr_validate now' token (snd (qr_validate now token s))
          = (Inl InvalidToken, snd (qr_validate now token s)))
   \<and> (fst (qr_validate_workshop now rand attendanceId eventId newToken token workshopId userId s)
         = Inl AlreadyCheckedIn \<longrightarrow>
        snd (qr_validate_workshop now rand attendanceId eventId newToken token workshopId userId s) = s
        \<and> (\<exists>qrData. select_qr token workshopId s = Some qrData \<and> \<not> q_used qrData
              \<and> \<not> q_expiresAt qrData < now))"
proof (intro conjI impI)
  assume a: "fst (qr_validate now token s) = Inl AlreadyCheckedIn"
  then have s': "snd (qr_validate now token s) = s\<lparr>qrTokens := (qrTokens s)(token := None)\<rparr>"
    and t: "token \<noteq> []"
    by (auto simp: qr_validate_def Let_def split: option.splits if_splits)
  show "qrTokens (snd (qr_validate now token s)) token = None"
    by (simp add: s')
  show "qr_validate now' token (snd (qr_validate now token s))
          = (Inl InvalidToken, snd (qr_validate now token s))"
    unfolding s' using t by (simp add: qr_validate_def)
next
  assume a: "fst (qr_validate_workshop now rand attendanceId eventId newToken token workshopId userId s)
         = Inl AlreadyCheckedIn"
  then show "snd (qr_validate_workshop now rand attendanceId eventId newToken token workshopId userId s) = s"
    by (auto simp: qr_validate_workshop_def Let_def split: option.splits if_splits)
  from a show "\<exists>qrData. select_qr token workshopId s = Some qrData \<and> \<not> q_used qrData
              \<and> \<not> q_expiresAt qrData < now"
    by (auto simp: qr_validate_workshop_def Let_def split: option.splits if_splits)
qed

text \<open>
  The theorem at concrete inputs: a user-scoped token of a user who has already checked
  in, and the workshop token presented by that user.
\<close>

theorem already_checked_in_token_fate_witness:
  "fst (qr_validate 100 ''U'' (snd (qr_generate 30000 95 ''U'' ''u1'' ''w1'' demo_state)))
     = Inl AlreadyCheckedIn
   \<and> qr_validate 101 ''U''
        (snd (qr_validate 100 ''U'' (snd (qr_generate 30000 95 ''U'' ''u1'' ''w1'' demo_state))))
     = (Inl InvalidToken,
        snd (qr_validate 100 ''U'' (snd (qr_generate 30000 95 ''U'' ''u1'' ''w1'' demo_state))))
   \<and> fst (qr_validate_workshop 100 0 ''a2'' ''e2'' ''T2'' ''T'' ''w1'' ''u1'' demo_state)
     = Inl AlreadyCheckedIn
   \<and> snd (qr_validate_workshop 100 0 ''a2'' ''e2'' ''T2'' ''T'' ''w1'' ''u1'' demo_state) = demo_state"
proof -
  have u: "fst (qr_validate 100 ''U'' (snd (qr_generate 30000 95 ''U'' ''u1'' ''w1'' demo_state)))
     = Inl AlreadyCheckedIn"
    by (simp add: qr_validate_def qr_generate_def Let_def select_user_def select_attendance_def
        select_reservation_def demo_state_def)
  have w: "fst (qr_validate_workshop 100 0 ''a2'' ''e2'' ''T2'' ''T'' ''w1'' ''u1'' demo_state)
     = Inl AlreadyCheckedIn"
    by (simp add: qr_validate_workshop_def demo_simps)
  show ?thesis
    using u w
      already_checked_in_token_fate
        [where now = 100 and token = "''U''" and now' = 101
           and s = "snd (qr_generate 30000 95 ''U'' ''u1'' ''w1'' demo_state)"]
      already_checked_in_token_fate
        [where now = 100 and token = "''T''" and s = demo_state and rand = 0
           and attendanceId = "''a2''" and eventId = "''e2''" and newToken = "''T2''"
           and workshopId = "''w1''" and userId = "''u1''"]
    by simp
qed

text \<open>
  Claim C5 as stated, for the workshop-scoped check-in: the user who has already checked
  in presents the displayed token and is refused with \<open>AlreadyCheckedIn\<close>; the same token
  is then accepted from the second user, so the refusal had not consumed it.
\<close>

theorem token_not_burned_counterexample:
  "qr_validate_workshop 100 0 ''a2'' ''e2'' ''T2'' ''T'' ''w1'' ''u1'' demo_state
     = (Inl AlreadyCheckedIn, demo_state)
   \<and> fst (qr_validate_workshop 101 0 ''a3'' ''e3'' ''T3'' ''T'' ''w1'' ''u2''
            (snd (qr_validate_workshop 100 0 ''a2'' ''e2'' ''T2'' ''T'' ''w1'' ''u1'' demo_state)))
     = Inr (\<lparr>u_id = ''u2'', u_name = ''Bob'', u_email = ''bob@example.org''\<rparr>, ''w1'', 101, ''T3'', 10101)"
proof -
  have 1: "qr_validate_workshop 100 0 ''a2'' ''e2'' ''T2'' ''T'' ''w1'' ''u1'' demo_state
     = (Inl AlreadyCheckedIn, demo_state)"
    by (simp add: qr_validate_workshop_def demo_simps)
  have 2: "fst (qr_validate_workshop 101 0 ''a3'' ''e3'' ''T3'' ''T'' ''w1'' ''u2'' demo_state)
     = Inr (\<lparr>u_id = ''u2'', u_name = ''Bob'', u_email = ''bob@example.org''\<rparr>, ''w1'', 101, ''T3'', 10101)"
    by (simp add: qr_validate_workshop_def demo_simps Let_def)
      (simp add: demo_state_def insert_attendance_def insert_qr_def select_attendance_def
        select_user_def select_workshop_def workshop_with_def mark_used_def broadcastEvent_def)
  show ?thesis by (simp add: 1 2)
qed

text \<open>
  Claim C6, as amended. After a check-in that consumed a user-scoped token, every replay
  of the token, at any time, fails with \<open>InvalidToken\<close> and writes nothing: the successful
  check-in recorded the attendance and deleted the token, and an unknown token is refused
  before the attendance is looked at.
\<close>

theorem replay_user_token_invalid:
  "fst (qr_validate now token s) = Inr (user, workshopId, checkedInAt) \<longrightarrow>
     select_attendance (u_id user) workshopId (snd (qr_validate now token s)) \<noteq> None
     \<and> qr_validate now' token (snd (qr_validate now token s))
         = (Inl InvalidToken, snd (qr_validate now token s))"
proof
  assume a: "fst (qr_validate now token s) = Inr (user, workshopId, checkedInAt)"
  then have t: "token \<noteq> []"
    by (auto simp: qr_validate_def)
  from a obtain tokenData s1 where td: "qrTokens s token = Some tokenData"
    and u: "select_user (t_userId tokenData) s = Some user"
    and w: "workshopId = t_workshopId tokenData"
    and s1: "insert_attendance \<lparr>a_id = String_of now, a_userId = t_userId tokenData,
               a_workshopId = t_workshopId tokenData, a_checkedInAt = now\<rparr> s = Some s1"
    and s': "snd (qr_validate now token s)
             = broadcastEvent ''attendance''
                 (AttendancePayload (String_of now) (t_userId tokenData) (u_name user) (u_email user)
                    (t_workshopId tokenData) now)
                 (s1\<lparr>qrTokens := (qrTokens s1)(token := None)\<rparr>)"
    by (auto simp: qr_validate_def Let_def split: option.splits if_splits)
  from u have uid: "u_id user = t_userId tokenData"
    by (auto simp: select_user_def find_Some_iff)
  have att: "attendance (snd (qr_validate now token s))
      = attendance s @ [\<lparr>a_id = String_of now, a_userId = t_userId tokenData,
               a_workshopId = t_workshopId tokenData, a_checkedInAt = now\<rparr>]"
    unfolding s' using insert_attendance_Some [OF s1] by simp
  have "select_attendance (u_id user) workshopId (snd (qr_validate now token s)) \<noteq> None"
    unfolding select_attendance_def att uid w by (simp add: find_append split: option.splits)
  moreover have "qr_validate now' token (snd (qr_validate now token s))
         = (Inl InvalidToken, snd (qr_validate now token s))"
    unfolding s' using t by (simp add: qr_validate_def)
  ultimately show "select_attendance (u_id user) workshopId (snd (qr_validate now token s)) \<noteq> None
     \<and> qr_validate now' token (snd (qr_validate now token s))
         = (Inl InvalidToken, snd (qr_validate now token s))"
    by simp
qed

lemma String_of_digits:
  "String_of 6 = ''6''" "String_of 7 = ''7''" "String_of 8 = ''8''" "String_of 9 = ''9''"
  by (simp_all add: String_of_def decimal.simps digit_char_def)

lemma token_issued_state_eq:
  "token_issued_state =
     initial_state\<lparr>
       workshops := map (\<lambda>w. w\<lparr>availableSeats := INTEGER 7\<rparr>) (workshops initial_state),
       reservations := [\<lparr>r_id = ''6'', r_userId = ''admin-1'', r_workshopId = ''1'', r_createdAt = 6\<rparr>],
       qrTokens := [''T'' \<mapsto> \<lparr>t_userId = ''admin-1'', t_workshopId = ''1'', t_expiresAt = 10007\<rparr>]\<rparr>"
  by (simp add: token_issued_state_def initial_state_def post_reservations_def qr_generate_def
      select_user_def select_workshop_def select_reservation_def insert_reservation_def
      update_seats_def no_date_def String_of_digits int64_def Let_def)

lemma cancelled_after_issue_state_eq:
  "cancelled_after_issue_state =
     initial_state\<lparr>
       qrTokens := [''T'' \<mapsto> \<lparr>t_userId = ''admin-1'', t_workshopId = ''1'', t_expiresAt = 10007\<rparr>]\<rparr>"
  by (simp add: cancelled_after_issue_state_def initial_state_def post_reservations_def qr_generate_def
      delete_reservations_def delete_reservation_def
      select_user_def select_workshop_def select_reservation_def insert_reservation_def
      update_seats_def no_date_def String_of_digits int64_def Let_def)

lemma validate_after_issue:
  "fst (qr_validate 8 ''T'' token_issued_state)
     = Inr (\<lparr>u_id = ''admin-1'', u_name = ''Admin'', u_email = ''admin@admin.com''\<rparr>, ''1'', 8)"
  by (simp add: token_issued_state_eq qr_validate_def initial_state_def select_user_def
      select_attendance_def select_workshop_def insert_attendance_def Let_def)

text \<open>The theorem on scenario B.\<close>

theorem replay_user_token_invalid_witness:
  "fst (qr_validate 8 ''T'' token_issued_state)
     = Inr (\<lparr>u_id = ''admin-1'', u_name = ''Admin'', u_email = ''admin@admin.com''\<rparr>, ''1'', 8)
   \<and> select_attendance ''admin-1'' ''1'' (snd (qr_validate 8 ''T'' token_issued_state)) \<noteq> None
   \<and> qr_validate 9 ''T'' (snd (qr_validate 8 ''T'' token_issued_state))
        = (Inl InvalidToken, snd (qr_validate 8 ''T'' token_issued_state))"
  using validate_after_issue
    replay_user_token_invalid
      [where now = 8 and token = "''T''" and s = token_issued_state and now' = 9
         and user = "\<lparr>u_id = ''admin-1'', u_name = ''Admin'', u_email = ''admin@admin.com''\<rparr>"
         and workshopId = "''1''" and checkedInAt = 8]
  by simp

text \<open>
  Claim C6 as stated has the replay fail with \<open>AlreadyUsed\<close> or \<open>AlreadyCheckedIn\<close>. On
  scenario B the check-in succeeds and the replay is refused with \<open>InvalidToken\<close>, the
  answer for a token that is not in the store.
\<close>

theorem replay_kind_counterexample:
  "fst (qr_validate 8 ''T'' token_issued_state)
     = Inr (\<lparr>u_id = ''admin-1'', u_name = ''Admin'', u_email = ''admin@admin.com''\<rparr>, ''1'', 8)
   \<and> fst (qr_validate 9 ''T'' (snd (qr_validate 8 ''T'' token_issued_state))) = Inl InvalidToken
   \<and> fst (qr_validate 9 ''T'' (snd (qr_validate 8 ''T'' token_issued_state))) \<noteq> Inl AlreadyUsed
   \<and> fst (qr_validate 9 ''T'' (snd (qr_validate 8 ''T'' token_issued_state))) \<noteq> Inl AlreadyCheckedIn"
proof -
  have "fst (qr_validate 9 ''T'' (snd (qr_validate 8 ''T'' token_issued_state))) = Inl InvalidToken"
    by (simp add: token_issued_state_eq qr_validate_def initial_state_def select_user_def
        select_attendance_def select_workshop_def insert_attendance_def Let_def broadcastEvent_def)
  then show ?thesis using validate_after_issue by simp
qed

text \<open>
  Claim C8, as amended. The workshop-scoped check-in looks the reservation up after the
  checks of the fields and of the user and before it reads the token: without a
  reservation it fails with \<open>NoReservation\<close> and writes nothing, so it never succeeds for
  a pair without a reservation. The user-scoped check-in does not read the reservations
  at all: its result is the same whatever the table holds. For user-scoped tokens the
  reservation is checked when the token is issued, and issuing fails with
  \<open>NoReservation\<close> without it.
\<close>

theorem reservation_gate:
  "(token \<noteq> [] \<and> workshopId \<noteq> [] \<and> userId \<noteq> [] \<and> select_user userId s \<noteq> None
      \<and> select_reservation userId workshopId s = None \<longrightarrow>
      qr_validate_workshop now rand attendanceId eventId newToken token workshopId userId s
        = (Inl NoReservation, s))
   \<and> (fst (qr_validate_workshop now rand attendanceId eventId newToken token workshopId userId s) = Inr r
        \<longrightarrow> select_reservation userId workshopId s \<noteq> None)
   \<and> (userId \<noteq> [] \<and> workshopId \<noteq> [] \<and> select_reservation userId workshopId s = None \<longrightarrow>
        qr_generate ttl now token userId workshopId s = (Inl NoReservation, s))
   \<and> fst (qr_validate now token (s\<lparr>reservations := rs\<rparr>)) = fst (qr_validate now token s)"
proof (intro conjI impI)
  assume "token \<noteq> [] \<and> workshopId \<noteq> [] \<and> userId \<noteq> [] \<and> select_user userId s \<noteq> None
      \<and> select_reservation userId workshopId s = None"
  then show "qr_validate_workshop now rand attendanceId eventId newToken token workshopId userId s
        = (Inl NoReservation, s)"
    by (auto simp: qr_validate_workshop_def)
next
  assume "fst (qr_validate_workshop now rand attendanceId eventId newToken token workshopId userId s) = Inr r"
  then show "select_reservation userId workshopId s \<noteq> None"
    by (auto simp: qr_validate_workshop_def split: option.splits if_splits)
next
  assume "userId \<noteq> [] \<and> workshopId \<noteq> [] \<and> select_reservation userId workshopId s = None"
  then show "qr_generate ttl now token userId workshopId s = (Inl NoReservation, s)"
    by (simp add: qr_generate_def)
next
  have sel: "select_user u (s\<lparr>reservations := rs\<rparr>) = select_user u s"
    "select_attendance u w (s\<lparr>reservations := rs\<rparr>) = select_attendance u w s"
    "select_workshop w (s\<lparr>reservations := rs\<rparr>) = select_workshop w s" for u w
    by (simp_all add: select_user_def select_attendance_def select_workshop_def)
  have ins: "insert_attendance a (s\<lparr>reservations := rs\<rparr>)
             = map_option (\<lambda>t. t\<lparr>reservations := rs\<rparr>) (insert_attendance a s)" for a
    by (simp add: insert_attendance_def sel)
  show "fst (qr_validate now token (s\<lparr>reservations := rs\<rparr>)) = fst (qr_validate now token s)"
    by (auto simp: qr_validate_def Let_def sel ins split: option.splits)
qed

text \<open>The theorem on the second user of the example database, for a workshop never reserved.\<close>

theorem reservation_gate_witness:
  "qr_validate_workshop 100 0 ''a2'' ''e2'' ''T2'' ''T'' ''w2'' ''u2'' demo_state
     = (Inl NoReservation, demo_state)
   \<and> qr_generate 10000 100 ''U'' ''u2'' ''w2'' demo_state = (Inl NoReservation, demo_state)"
  using reservation_gate
    [where token = "''T''" and workshopId = "''w2''" and userId = "''u2''" and s = demo_state
       and now = 100 and rand = 0 and attendanceId = "''a2''" and eventId = "''e2''"
       and newToken = "''T2''" and ttl = 10000]
    reservation_gate
    [where token = "''U''" and workshopId = "''w2''" and userId = "''u2''" and s = demo_state
       and now = 100 and ttl = 10000]
  by (simp add: demo_simps) (simp add: demo_state_def select_reservation_def)

text \<open>
  Claim C8 as stated, for the user-scoped check-in: the token is issued while the
  reservation exists, the reservation is cancelled, and the check-in with the token then
  succeeds although the pair has no reservation.
\<close>

theorem check_in_without_reservation_counterexample:
  "select_reservation ''admin-1'' ''1'' cancelled_after_issue_state = None
   \<and> fst (qr_validate 8 ''T'' cancelled_after_issue_state)
       = Inr (\<lparr>u_id = ''admin-1'', u_name = ''Admin'', u_email = ''admin@admin.com''\<rparr>, ''1'', 8)"
  by (simp add: cancelled_after_issue_state_eq qr_validate_def initial_state_def select_user_def
      select_reservation_def select_attendance_def select_workshop_def insert_attendance_def Let_def)

section \<open>Rotation and the transaction of the workshop-scoped check-in\<close>

lemma bex_map_iff: "(\<exists>y \<in> set (map f xs). P y) = (\<exists>x \<in> set xs. P (f x))"
  by (induction xs) auto

lemma validate_workshop_success:
  assumes "fst (qr_validate_workshop now rand attendanceId eventId newToken token workshopId userId s) = Inr r"
  shows "\<exists>user s1.
           select_user userId s = Some user
           \<and> insert_attendance \<lparr>a_id = attendanceId, a_userId = userId, a_workshopId = workshopId,
                                 a_checkedInAt = now\<rparr> s = Some s1
           \<and> r = (user, workshopId, now, newToken, now + rand + 10000)
           \<and> insert_qr \<lparr>q_token = newToken, q_workshopId = workshopId, q_createdAt = now,
                         q_expiresAt = now + rand + 10000, q_used = False\<rparr>
                 (broadcastEvent ''qr_used''
                    (QrUsedPayload workshopId (u_name user) newToken (now + rand + 10000))
                    (broadcastEvent ''attendance''
                       (AttendancePayload eventId userId (u_name user) (u_email user) workshopId now)
                       (mark_used token s1)))
               = Some (snd (qr_validate_workshop now rand attendanceId eventId newToken token
                              workshopId userId s))"
  using assms
  by (auto simp: qr_validate_workshop_def Let_def split: option.splits if_splits)

text \<open>
  Claim C9, as amended. After every successful workshop-scoped check-in the server has
  written two events to every subscribed client, first \<^verbatim>\<open>attendance\<close> and then an event of
  kind \<^verbatim>\<open>qr_used\<close> that carries the new token and its expiry, and has stored the new
  token, unused, for the same workshop; the response returns the same new token.
\<close>

theorem rotation_event_is_qr_used:
  "fst (qr_validate_workshop now rand attendanceId eventId newToken token workshopId userId s) = Inr r
   \<longrightarrow>
   (\<exists>user. select_user userId s = Some user
      \<and> r = (user, workshopId, now, newToken, now + rand + 10000)
      \<and> sent (snd (qr_validate_workshop now rand attendanceId eventId newToken token workshopId userId s))
          = sent s
            @ map (\<lambda>client. (client, ''attendance'',
                     AttendancePayload eventId userId (u_name user) (u_email user) workshopId now))
                (sseClients s)
            @ map (\<lambda>client. (client, ''qr_used'',
                     QrUsedPayload workshopId (u_name user) newToken (now + rand + 10000)))
                (sseClients s)
      \<and> select_qr newToken workshopId
           (snd (qr_validate_workshop now rand attendanceId eventId newToken token workshopId userId s))
          = Some \<lparr>q_token = newToken, q_workshopId = workshopId, q_createdAt = now,
                  q_expiresAt = now + rand + 10000, q_used = False\<rparr>)"
proof
  assume a: "fst (qr_validate_workshop now rand attendanceId eventId newToken token workshopId userId s) = Inr r"
  let ?s' = "snd (qr_validate_workshop now rand attendanceId eventId newToken token workshopId userId s)"
  let ?row = "\<lparr>q_token = newToken, q_workshopId = workshopId, q_createdAt = now,
                q_expiresAt = now + rand + 10000, q_used = False\<rparr>"
  from validate_workshop_success [OF a] obtain user s1 where
    u: "select_user userId s = Some user"
    and s1: "insert_attendance \<lparr>a_id = attendanceId, a_userId = userId, a_workshopId = workshopId,
                                 a_checkedInAt = now\<rparr> s = Some s1"
    and r: "r = (user, workshopId, now, newToken, now + rand + 10000)"
    and ins: "insert_qr ?row
                 (broadcastEvent ''qr_used''
                    (QrUsedPayload workshopId (u_name user) newToken (now + rand + 10000))
                    (broadcastEvent ''attendance''
                       (AttendancePayload eventId userId (u_name user) (u_email user) workshopId now)
                       (mark_used token s1)))
               = Some ?s'"
    by blast
  have e1: "s1 = s\<lparr>attendance := attendance s @ [\<lparr>a_id = attendanceId, a_userId = userId,
      a_workshopId = workshopId, a_checkedInAt = now\<rparr>]\<rparr>"
    using insert_attendance_Some [OF s1] .
  note e5 = insert_qr_Some [OF ins]
  have fresh: "newToken \<notin> set (map q_token (qr_tokens (mark_used token s1)))"
    using ins by (auto simp: insert_qr_def split: if_splits)
  have snt: "sent ?s' = sent s
            @ map (\<lambda>client. (client, ''attendance'',
                     AttendancePayload eventId userId (u_name user) (u_email user) workshopId now))
                (sseClients s)
            @ map (\<lambda>client. (client, ''qr_used'',
                     QrUsedPayload workshopId (u_name user) newToken (now + rand + 10000)))
                (sseClients s)"
    by (subst e5) (simp add: broadcastEvent_def mark_used_def e1)
  have old: "find (\<lambda>q. q_token q = newToken \<and> q_workshopId q = workshopId)
               (qr_tokens (mark_used token s1)) = None"
    using fresh by (auto simp: find_None_iff)
  have sel: "select_qr newToken workshopId ?s' = Some ?row"
    by (subst e5) (simp add: select_qr_def find_append old)
  show "\<exists>user. select_user userId s = Some user
      \<and> r = (user, workshopId, now, newToken, now + rand + 10000)
      \<and> sent ?s'
          = sent s
            @ map (\<lambda>client. (client, ''attendance'',
                     AttendancePayload eventId userId (u_name user) (u_email user) workshopId now))
                (sseClients s)
            @ map (\<lambda>client. (client, ''qr_used'',
                     QrUsedPayload workshopId (u_name user) newToken (now + rand + 10000)))
                (sseClients s)
      \<and> select_qr newToken workshopId ?s' = Some ?row"
    using u r snt sel by blast
qed

lemma demo_check_in:
  "qr_validate_workshop 100 0 ''a2'' ''e2'' ''T2'' ''T'' ''w1'' ''u2'' demo_state
   = (Inr (\<lparr>u_id = ''u2'', u_name = ''Bob'', u_email = ''bob@example.org''\<rparr>, ''w1'', 100, ''T2'', 10100),
      demo_state\<lparr>
        attendance := attendance demo_state
          @ [\<lparr>a_id = ''a2'', a_userId = ''u2'', a_workshopId = ''w1'', a_checkedInAt = 100\<rparr>],
        qr_tokens := [\<lparr>q_token = ''T'', q_workshopId = ''w1'', q_createdAt = 90, q_expiresAt = 10090,
                        q_used = True\<rparr>,
                      \<lparr>q_token = ''T2'', q_workshopId = ''w1'', q_createdAt = 100, q_expiresAt = 10100,
                        q_used = False\<rparr>],
        sent := [(0, ''attendance'', AttendancePayload ''e2'' ''u2'' ''Bob'' ''bob@example.org'' ''w1'' 100),
                 (0, ''qr_used'', QrUsedPayload ''w1'' ''Bob'' ''T2'' 10100)]\<rparr>)"
  by (simp add: qr_validate_workshop_def demo_simps Let_def)
    (simp add: demo_state_def insert_attendance_def insert_qr_def select_attendance_def
      select_user_def select_workshop_def workshop_with_def mark_used_def broadcastEvent_def)

text \<open>The theorem on the check-in of the second user of the example database.\<close>

theorem rotation_event_is_qr_used_witness:
  "fst (qr_validate_workshop 100 0 ''a2'' ''e2'' ''T2'' ''T'' ''w1'' ''u2'' demo_state)
     = Inr (\<lparr>u_id = ''u2'', u_name = ''Bob'', u_email = ''bob@example.org''\<rparr>, ''w1'', 100, ''T2'', 10100)
   \<and> select_qr ''T2'' ''w1''
        (snd (qr_validate_workshop 100 0 ''a2'' ''e2'' ''T2'' ''T'' ''w1'' ''u2'' demo_state))
     = Some \<lparr>q_token = ''T2'', q_workshopId = ''w1'', q_createdAt = 100, q_expiresAt = 10100,
             q_used = False\<rparr>"
  using rotation_event_is_qr_used
    [where now = 100 and rand = 0 and attendanceId = "''a2''" and eventId = "''e2''"
       and newToken = "''T2''" and token = "''T''" and workshopId = "''w1''" and userId = "''u2''"
       and s = demo_state
       and r = "(\<lparr>u_id = ''u2'', u_name = ''Bob'', u_email = ''bob@example.org''\<rparr>, ''w1'', 100, ''T2'', 10100)"]
  by (simp add: demo_check_in select_qr_def)

text \<open>
  Claim C9 as stated names the event \<^verbatim>\<open>token_rotated\<close>. The kinds written to the subscribed
  client by a successful check-in are \<^verbatim>\<open>attendance\<close> and \<^verbatim>\<open>qr_used\<close>, and the new token is
  carried by the \<^verbatim>\<open>qr_used\<close> event.
\<close>

theorem rotation_event_kind_counterexample:
  "map (fst \<circ> snd)
     (sent (snd (qr_validate_workshop 100 0 ''a2'' ''e2'' ''T2'' ''T'' ''w1'' ''u2'' demo_state)))
     = [''attendance'', ''qr_used'']
   \<and> ''token_rotated'' \<notin> set (map (fst \<circ> snd)
        (sent (snd (qr_validate_workshop 100 0 ''a2'' ''e2'' ''T2'' ''T'' ''w1'' ''u2'' demo_state))))
   \<and> sent (snd (qr_validate_workshop 100 0 ''a2'' ''e2'' ''T2'' ''T'' ''w1'' ''u2'' demo_state)) ! 1
     = (0, ''qr_used'', QrUsedPayload ''w1'' ''Bob'' ''T2'' 10100)"
  by (simp add: demo_check_in select_qr_def)

text \<open>
  Claim C10. Whatever the request and the database, \<^verbatim>\<open>POST /qr/validate-workshop\<close> leaves
  one of two states: either the attendance row has been appended and every row of the
  presented token, unused before, is now marked used; or the attendance table is as
  before and no token row has become used.
\<close>

theorem check_in_transaction_atomic:
  "(attendance (snd (qr_validate_workshop now rand attendanceId eventId newToken token workshopId userId s))
      = attendance s @ [\<lparr>a_id = attendanceId, a_userId = userId, a_workshopId = workshopId,
                          a_checkedInAt = now\<rparr>]
    \<and> (\<exists>q \<in> set (qr_tokens s). q_token q = token \<and> q_workshopId q = workshopId \<and> \<not> q_used q)
    \<and> (\<exists>q \<in> set (qr_tokens (snd (qr_validate_workshop now rand attendanceId eventId newToken token
                                    workshopId userId s))).
          q_token q = token \<and> q_workshopId q = workshopId)
    \<and> (\<forall>q \<in> set (qr_tokens (snd (qr_validate_workshop now rand attendanceId eventId newToken token
                                    workshopId userId s))).
          q_token q = token \<longrightarrow> q_used q))
   \<or> (attendance (snd (qr_validate_workshop now rand attendanceId eventId newToken token workshopId userId s))
        = attendance s
      \<and> (\<forall>q \<in> set (qr_tokens (snd (qr_validate_workshop now rand attendanceId eventId newToken token
                                      workshopId userId s))).
            q_used q \<longrightarrow> q \<in> set (qr_tokens s)))"
proof (cases "\<exists>user qrData s1. token \<noteq> [] \<and> workshopId \<noteq> [] \<and> userId \<noteq> []
     \<and> select_user userId s = Some user \<and> select_reservation userId workshopId s \<noteq> None
     \<and> select_qr token workshopId s = Some qrData \<and> \<not> q_used qrData \<and> \<not> q_expiresAt qrData < now
     \<and> select_attendance userId workshopId s = None
     \<and> insert_attendance \<lparr>a_id = attendanceId, a_userId = userId, a_workshopId = workshopId,
                          a_checkedInAt = now\<rparr> s = Some s1")
  case False
  then have "attendance (snd (qr_validate_workshop now rand attendanceId eventId newToken token workshopId userId s))
        = attendance s
      \<and> (\<forall>q \<in> set (qr_tokens (snd (qr_validate_workshop now rand attendanceId eventId newToken token
                                      workshopId userId s))).
            q_used q \<longrightarrow> q \<in> set (qr_tokens s))"
    by (auto simp: qr_validate_workshop_def Let_def delete_qr_def split: option.splits)
  then show ?thesis by blast
next
  case True
  then obtain user qrData s1 where c: "token \<noteq> []" "workshopId \<noteq> []" "userId \<noteq> []"
     "select_user userId s = Some user" "select_reservation userId workshopId s \<noteq> None"
     "select_qr token workshopId s = Some qrData" "\<not> q_used qrData" "\<not> q_expiresAt qrData < now"
     "select_attendance userId workshopId s = None"
     and s1: "insert_attendance \<lparr>a_id = attendanceId, a_userId = userId, a_workshopId = workshopId,
                          a_checkedInAt = now\<rparr> s = Some s1"
    by blast
  let ?s' = "snd (qr_validate_workshop now rand attendanceId eventId newToken token workshopId userId s)"
  let ?s4 = "broadcastEvent ''qr_used''
                    (QrUsedPayload workshopId (u_name user) newToken (now + rand + 10000))
                    (broadcastEvent ''attendance''
                       (AttendancePayload eventId userId (u_name user) (u_email user) workshopId now)
                       (mark_used token s1))"
  let ?row = "\<lparr>q_token = newToken, q_workshopId = workshopId, q_createdAt = now,
                q_expiresAt = now + rand + 10000, q_used = False\<rparr>"
  have e1: "s1 = s\<lparr>attendance := attendance s @ [\<lparr>a_id = attendanceId, a_userId = userId,
      a_workshopId = workshopId, a_checkedInAt = now\<rparr>]\<rparr>"
    using insert_attendance_Some [OF s1] .
  have s': "?s' = (case insert_qr ?row ?s4 of None \<Rightarrow> ?s4 | Some s5 \<Rightarrow> s5)"
    using c s1 by (auto simp: qr_validate_workshop_def Let_def split: option.splits)
  have q4: "qr_tokens ?s4 = map (\<lambda>q. if q_token q = token then q\<lparr>q_used := True\<rparr> else q) (qr_tokens s)"
    and a4: "attendance ?s4 = attendance s @ [\<lparr>a_id = attendanceId, a_userId = userId,
      a_workshopId = workshopId, a_checkedInAt = now\<rparr>]"
    by (simp_all add: mark_used_def e1)
  from c(6) have mem: "qrData \<in> set (qr_tokens s)" "q_token qrData = token" "q_workshopId qrData = workshopId"
    by (auto simp: select_qr_def find_Some_iff)
  have marked: "\<forall>q \<in> set (qr_tokens ?s4). q_token q = token \<longrightarrow> q_used q"
    unfolding q4 ball_map_iff by simp
  have kept: "\<exists>q \<in> set (qr_tokens ?s4). q_token q = token \<and> q_workshopId q = workshopId"
    unfolding q4 bex_map_iff using mem by (intro bexI [of _ qrData]) simp_all
  have before: "\<exists>q \<in> set (qr_tokens s). q_token q = token \<and> q_workshopId q = workshopId \<and> \<not> q_used q"
    using mem c(7) by blast
  show ?thesis
  proof (cases "insert_qr ?row ?s4")
    case None
    then have "?s' = ?s4" using s' by simp
    then show ?thesis using a4 marked kept before by simp
  next
    case (Some s5)
    then have e5: "?s' = ?s4\<lparr>qr_tokens := qr_tokens ?s4 @ [?row]\<rparr>"
      using s' insert_qr_Some [OF Some] by simp
    have nt: "newToken \<noteq> token"
      using Some kept by (auto simp: insert_qr_def split: if_splits)
    have "attendance ?s' = attendance s @ [\<lparr>a_id = attendanceId, a_userId = userId,
      a_workshopId = workshopId, a_checkedInAt = now\<rparr>]"
      by (subst e5) (simp add: e1)
    moreover have "\<exists>q \<in> set (qr_tokens ?s'). q_token q = token \<and> q_workshopId q = workshopId"
      using kept by (subst e5) auto
    moreover have "\<forall>q \<in> set (qr_tokens ?s'). q_token q = token \<longrightarrow> q_used q"
      using marked nt by (subst e5) auto
    ultimately show ?thesis using before by blast
  qed
qed

text \<open>The theorem on the accepted check-in of the example database: both changes are there.\<close>

theorem check_in_transaction_atomic_witness:
  "attendance (snd (qr_validate_workshop 100 0 ''a2'' ''e2'' ''T2'' ''T'' ''w1'' ''u2'' demo_state))
     \<noteq> attendance demo_state
   \<and> select_qr ''T'' ''w1'' (snd (qr_validate_workshop 100 0 ''a2'' ''e2'' ''T2'' ''T'' ''w1'' ''u2'' demo_state))
     = Some \<lparr>q_token = ''T'', q_workshopId = ''w1'', q_createdAt = 90, q_expiresAt = 10090, q_used = True\<rparr>"
  using check_in_transaction_atomic
    [where now = 100 and rand = 0 and attendanceId = "''a2''" and eventId = "''e2''"
       and newToken = "''T2''" and token = "''T''" and workshopId = "''w1''" and userId = "''u2''"
       and s = demo_state]
  by (simp add: demo_check_in select_qr_def)

section \<open>The attendance set\<close>

lemma attendance_unique_simple [simp]:
  "attendance_unique (broadcastEvent e d s) = attendance_unique s"
  "attendance_unique (events_open c s) = attendance_unique s"
  "attendance_unique (events_close c s) = attendance_unique s"
  "attendance_unique (cleanup now s) = attendance_unique s"
  "attendance_unique (s\<lparr>qrTokens := m\<rparr>) = attendance_unique s"
  "attendance_unique (update_seats toDouble w n s) = attendance_unique s"
  "attendance_unique (mark_used t s) = attendance_unique s"
  "attendance_unique (delete_reservation rid s) = attendance_unique s"
  "attendance_unique (delete_qr t s) = attendance_unique s"
  "attendance_unique (delete_qr_stale now w s) = attendance_unique s"
  by (auto simp: attendance_unique_def broadcastEvent_def events_open_def events_close_def
      cleanup_def update_seats_def mark_used_def delete_reservation_def delete_qr_def
      delete_qr_stale_def)

lemma attendance_unique_inserts:
  "insert_workshop w s = Some s1 \<Longrightarrow> attendance_unique s \<Longrightarrow> attendance_unique s1"
  "insert_reservation r s = Some s1 \<Longrightarrow> attendance_unique s \<Longrightarrow> attendance_unique s1"
  "insert_qr q s = Some s1 \<Longrightarrow> attendance_unique s \<Longrightarrow> attendance_unique s1"
  by (auto simp: attendance_unique_def insert_workshop_def insert_reservation_def insert_qr_def
      split: if_splits)

lemma attendance_unique_insert_attendance:
  "insert_attendance a s = Some s1 \<Longrightarrow> attendance_unique s \<Longrightarrow> attendance_unique s1"
  by (auto simp: attendance_unique_def insert_attendance_def select_attendance_def find_None_iff
      split: if_splits; blast)

lemma attendance_unique_handle:
  "attendance_unique s \<Longrightarrow> attendance_unique (handle toDouble parseDate ttl req s)"
proof (cases req)
  case (PostWorkshops now body)
  then show ?thesis if "attendance_unique s" using that
    by (auto simp: post_workshops_def Let_def attendance_unique_inserts split: option.splits)
next
  case (PostReservations now startOfToday userId workshopId)
  then show ?thesis if "attendance_unique s" using that
    by (auto simp: post_reservations_def Let_def attendance_unique_inserts split: option.splits)
next
  case (DeleteReservations userId workshopId)
  then show ?thesis if "attendance_unique s" using that
    by (auto simp: delete_reservations_def Let_def split: option.splits)
next
  case (QrGenerate now token userId workshopId)
  then show ?thesis if "attendance_unique s" using that
    by (simp add: qr_generate_def Let_def)
next
  case (QrValidate now token)
  then show ?thesis if "attendance_unique s" using that
    by (auto simp: qr_validate_def Let_def attendance_unique_insert_attendance split: option.splits)
next
  case (QrGenerateWorkshop now rand token workshopId)
  then show ?thesis if "attendance_unique s" using that
    by (auto simp: qr_generate_workshop_def Let_def attendance_unique_inserts split: option.splits)
next
  case (QrValidateWorkshop now rand attendanceId eventId newToken token workshopId userId)
  then show ?thesis if "attendance_unique s" using that
    by (auto simp: qr_validate_workshop_def Let_def attendance_unique_inserts
        attendance_unique_insert_attendance split: option.splits)
qed simp_all

lemma attendance_unique_run:
  "attendance_unique s \<Longrightarrow> attendance_unique (run toDouble parseDate ttl reqs s)"
  by (induction reqs arbitrary: s) (simp_all add: attendance_unique_handle)

lemma distinct_map_filter_le_one:
  "distinct (map f xs) \<Longrightarrow> length (filter (\<lambda>x. f x = k) xs) \<le> 1"
proof (induction xs)
  case Nil
  then show ?case by simp
next
  case (Cons a xs)
  show ?case
  proof (cases "f a = k")
    case True
    with Cons.prems have "filter (\<lambda>x. f x = k) xs = []"
      by (auto simp: filter_empty_conv image_iff)
    with True show ?thesis by simp
  next
    case False
    with Cons show ?thesis by simp
  qed
qed

lemma attendance_of_le_one: "attendance_unique s \<Longrightarrow> length (attendance_of userId workshopId s) \<le> 1"
proof -
  assume "attendance_unique s"
  then have "length (filter (\<lambda>a. (a_userId a, a_workshopId a) = (userId, workshopId)) (attendance s)) \<le> 1"
    unfolding attendance_unique_def by (rule distinct_map_filter_le_one)
  then show ?thesis by (simp add: attendance_of_def)
qed

text \<open>
  Claim C4, as amended. If no pair has two attendance rows, then no pair has two after
  any sequence of requests. A check-in for a pair that already has an attendance row
  fails and leaves the attendance table as it is, in the workshop-scoped and in the
  user-scoped operation. The failure is \<open>AlreadyCheckedIn\<close> exactly when the attempt
  passes every check that the handler runs before it reads the attendance (fields, user,
  reservation and token in the workshop-scoped operation; token and user in the
  user-scoped one); otherwise it is the kind of the earlier check, such as \<open>AlreadyUsed\<close>
  for a token that is marked used. A user-scoped token that is not in the store is
  refused with \<open>InvalidToken\<close> and nothing is written.
\<close>

theorem attendance_at_most_once:
  "(attendance_unique s \<longrightarrow>
      attendance_unique (run toDouble parseDate ttl reqs s)
      \<and> length (attendance_of userId workshopId (run toDouble parseDate ttl reqs s)) \<le> 1)
   \<and> (select_attendance userId workshopId s \<noteq> None \<longrightarrow>
        (\<exists>e. fst (qr_validate_workshop now rand attendanceId eventId newToken token workshopId userId s)
               = Inl e)
        \<and> attendance (snd (qr_validate_workshop now rand attendanceId eventId newToken token workshopId userId s))
            = attendance s
        \<and> ((fst (qr_validate_workshop now rand attendanceId eventId newToken token workshopId userId s)
               = Inl AlreadyCheckedIn)
            = (token \<noteq> [] \<and> workshopId \<noteq> [] \<and> userId \<noteq> [] \<and> select_user userId s \<noteq> None
               \<and> select_reservation userId workshopId s \<noteq> None
               \<and> (\<exists>qrData. select_qr token workshopId s = Some qrData \<and> \<not> q_used qrData
                     \<and> \<not> q_expiresAt qrData < now)))
        \<and> (token \<noteq> [] \<and> workshopId \<noteq> [] \<and> userId \<noteq> [] \<and> select_user userId s \<noteq> None
             \<and> select_reservation userId workshopId s \<noteq> None
             \<and> (\<exists>qrData. select_qr token workshopId s = Some qrData \<and> q_used qrData) \<longrightarrow>
             qr_validate_workshop now rand attendanceId eventId newToken token workshopId userId s
               = (Inl AlreadyUsed, s)))
   \<and> (\<forall>tokenData. qrTokens s token = Some tokenData
          \<and> select_attendance (t_userId tokenData) (t_workshopId tokenData) s \<noteq> None \<longrightarrow>
        (\<exists>e. fst (qr_validate now token s) = Inl e)
        \<and> attendance (snd (qr_validate now token s)) = attendance s
        \<and> ((fst (qr_validate now token s) = Inl AlreadyCheckedIn)
            = (token \<noteq> [] \<and> \<not> t_expiresAt tokenData < now
               \<and> select_user (t_userId tokenData) s \<noteq> None)))
   \<and> (token \<noteq> [] \<and> qrTokens s token = None \<longrightarrow>
        qr_validate now token s = (Inl InvalidToken, s))"
proof (intro conjI allI impI)
  assume "attendance_unique s"
  then show u: "attendance_unique (run toDouble parseDate ttl reqs s)"
    by (rule attendance_unique_run)
  then show "length (attendance_of userId workshopId (run toDouble parseDate ttl reqs s)) \<le> 1"
    by (rule attendance_of_le_one)
next
  assume a: "select_attendance userId workshopId s \<noteq> None"
  then show "\<exists>e. fst (qr_validate_workshop now rand attendanceId eventId newToken token workshopId userId s)
               = Inl e"
    by (auto simp: qr_validate_workshop_def Let_def split: option.splits)
  from a show "attendance (snd (qr_validate_workshop now rand attendanceId eventId newToken token workshopId userId s))
            = attendance s"
    by (auto simp: qr_validate_workshop_def Let_def delete_qr_def split: option.splits)
  from a show "(fst (qr_validate_workshop now rand attendanceId eventId newToken token workshopId userId s)
               = Inl AlreadyCheckedIn)
            = (token \<noteq> [] \<and> workshopId \<noteq> [] \<and> userId \<noteq> [] \<and> select_user userId s \<noteq> None
               \<and> select_reservation userId workshopId s \<noteq> None
               \<and> (\<exists>qrData. select_qr token workshopId s = Some qrData \<and> \<not> q_used qrData
                     \<and> \<not> q_expiresAt qrData < now))"
    by (auto simp: qr_validate_workshop_def Let_def split: option.splits)
  assume "token \<noteq> [] \<and> workshopId \<noteq> [] \<and> userId \<noteq> [] \<and> select_user userId s \<noteq> None
             \<and> select_reservation userId workshopId s \<noteq> None
             \<and> (\<exists>qrData. select_qr token workshopId s = Some qrData \<and> q_used qrData)"
  then show "qr_validate_workshop now rand attendanceId eventId newToken token workshopId userId s
               = (Inl AlreadyUsed, s)"
    by (auto simp: qr_validate_workshop_def Let_def split: option.splits)
next
  fix tokenData
  assume a: "qrTokens s token = Some tokenData
          \<and> select_attendance (t_userId tokenData) (t_workshopId tokenData) s \<noteq> None"
  then show "\<exists>e. fst (qr_validate now token s) = Inl e"
    by (auto simp: qr_validate_def Let_def split: option.splits)
  from a show "attendance (snd (qr_validate now token s)) = attendance s"
    by (auto simp: qr_validate_def Let_def split: option.splits)
  from a show "(fst (qr_validate now token s) = Inl AlreadyCheckedIn)
            = (token \<noteq> [] \<and> \<not> t_expiresAt tokenData < now
               \<and> select_user (t_userId tokenData) s \<noteq> None)"
    by (auto simp: qr_validate_def Let_def split: option.splits)
next
  assume "token \<noteq> [] \<and> qrTokens s token = None"
  then show "qr_validate now token s = (Inl InvalidToken, s)"
    by (simp add: qr_validate_def)
qed

text \<open>
  The theorem on the example database, where the first user has checked in: a run of two
  more check-ins keeps one row for each pair; the first user is refused with the
  workshop token, and is refused with a user-scoped token issued to that user.
\<close>

theorem attendance_at_most_once_witness:
  "attendance_unique demo_state
   \<and> attendance_unique
       (run no_rounding no_date 10000
          [QrValidateWorkshop 100 0 ''a2'' ''e2'' ''T2'' ''T'' ''w1'' ''u1'',
           QrValidateWorkshop 101 0 ''a3'' ''e3'' ''T3'' ''T'' ''w1'' ''u2''] demo_state)
   \<and> select_attendance ''u1'' ''w1'' demo_state \<noteq> None
   \<and> fst (qr_validate_workshop 100 0 ''a2'' ''e2'' ''T2'' ''T'' ''w1'' ''u1'' demo_state)
       = Inl AlreadyCheckedIn
   \<and> attendance (snd (qr_validate_workshop 100 0 ''a2'' ''e2'' ''T2'' ''T'' ''w1'' ''u1'' demo_state))
       = attendance demo_state
   \<and> qrTokens (snd (qr_generate 30000 95 ''U'' ''u1'' ''w1'' demo_state)) ''U''
       = Some \<lparr>t_userId = ''u1'', t_workshopId = ''w1'', t_expiresAt = 30095\<rparr>
   \<and> fst (qr_validate 100 ''U'' (snd (qr_generate 30000 95 ''U'' ''u1'' ''w1'' demo_state)))
       = Inl AlreadyCheckedIn
   \<and> attendance (snd (qr_validate 100 ''U'' (snd (qr_generate 30000 95 ''U'' ''u1'' ''w1'' demo_state))))
       = attendance demo_state"
proof -
  let ?sU = "snd (qr_generate 30000 95 ''U'' ''u1'' ''w1'' demo_state)"
  have u: "attendance_unique demo_state"
    by (simp add: attendance_unique_def demo_state_def)
  have g: "?sU = demo_state\<lparr>qrTokens := (qrTokens demo_state)(''U'' \<mapsto>
             \<lparr>t_userId = ''u1'', t_workshopId = ''w1'', t_expiresAt = 30095\<rparr>)\<rparr>"
    by (simp add: qr_generate_def Let_def demo_simps)
  have tk: "qrTokens ?sU ''U'' = Some \<lparr>t_userId = ''u1'', t_workshopId = ''w1'', t_expiresAt = 30095\<rparr>"
    by (simp add: g)
  have au: "select_attendance ''u1'' ''w1'' ?sU \<noteq> None" "select_user ''u1'' ?sU \<noteq> None"
    "attendance ?sU = attendance demo_state"
    unfolding g by (simp_all add: select_attendance_def select_user_def demo_state_def)
  note w = attendance_at_most_once
        [where s = demo_state and toDouble = no_rounding and parseDate = no_date and ttl = 10000
           and reqs = "[QrValidateWorkshop 100 0 ''a2'' ''e2'' ''T2'' ''T'' ''w1'' ''u1'',
                        QrValidateWorkshop 101 0 ''a3'' ''e3'' ''T3'' ''T'' ''w1'' ''u2'']"
           and userId = "''u1''" and workshopId = "''w1''" and now = 100 and rand = 0
           and attendanceId = "''a2''" and eventId = "''e2''" and newToken = "''T2''"
           and token = "''T''"]
  note v = attendance_at_most_once [where s = ?sU and token = "''U''" and now = 100]
  have user_half: "fst (qr_validate 100 ''U'' ?sU) = Inl AlreadyCheckedIn
      \<and> attendance (snd (qr_validate 100 ''U'' ?sU)) = attendance demo_state"
    using v tk au by simp
  have workshop_half: "attendance_unique
       (run no_rounding no_date 10000
          [QrValidateWorkshop 100 0 ''a2'' ''e2'' ''T2'' ''T'' ''w1'' ''u1'',
           QrValidateWorkshop 101 0 ''a3'' ''e3'' ''T3'' ''T'' ''w1'' ''u2''] demo_state)
   \<and> fst (qr_validate_workshop 100 0 ''a2'' ''e2'' ''T2'' ''T'' ''w1'' ''u1'' demo_state)
       = Inl AlreadyCheckedIn
   \<and> attendance (snd (qr_validate_workshop 100 0 ''a2'' ''e2'' ''T2'' ''T'' ''w1'' ''u1'' demo_state))
       = attendance demo_state"
    using u w by (simp add: demo_simps)
  show ?thesis
    using u user_half workshop_half tk by (simp add: demo_simps)
qed

text \<open>
  Claim C4 as stated has every such attempt fail with \<open>AlreadyCheckedIn\<close>. After the
  second user has checked in with the displayed token, the same scan repeated is refused
  with \<open>AlreadyUsed\<close>, the check of the token coming first; and on scenario B the replay
  of the user-scoped token, for a pair that has its attendance row, is refused with
  \<open>InvalidToken\<close>.
\<close>

theorem second_attempt_kind_counterexample:
  "select_attendance ''u2'' ''w1''
     (snd (qr_validate_workshop 100 0 ''a2'' ''e2'' ''T2'' ''T'' ''w1'' ''u2'' demo_state)) \<noteq> None
   \<and> fst (qr_validate_workshop 101 0 ''a3'' ''e3'' ''T3'' ''T'' ''w1'' ''u2''
            (snd (qr_validate_workshop 100 0 ''a2'' ''e2'' ''T2'' ''T'' ''w1'' ''u2'' demo_state)))
       = Inl AlreadyUsed
   \<and> select_attendance ''admin-1'' ''1'' (snd (qr_validate 8 ''T'' token_issued_state)) \<noteq> None
   \<and> fst (qr_validate 9 ''T'' (snd (qr_validate 8 ''T'' token_issued_state))) = Inl InvalidToken"
proof -
  have w: "select_attendance ''u2'' ''w1''
     (snd (qr_validate_workshop 100 0 ''a2'' ''e2'' ''T2'' ''T'' ''w1'' ''u2'' demo_state)) \<noteq> None
   \<and> fst (qr_validate_workshop 101 0 ''a3'' ''e3'' ''T3'' ''T'' ''w1'' ''u2''
            (snd (qr_validate_workshop 100 0 ''a2'' ''e2'' ''T2'' ''T'' ''w1'' ''u2'' demo_state)))
       = Inl AlreadyUsed"
    unfolding demo_check_in
    by (simp add: qr_validate_workshop_def select_attendance_def select_user_def
        select_reservation_def select_qr_def demo_state_def)
  have u: "select_attendance ''admin-1'' ''1'' (snd (qr_validate 8 ''T'' token_issued_state)) \<noteq> None
   \<and> fst (qr_validate 9 ''T'' (snd (qr_validate 8 ''T'' token_issued_state))) = Inl InvalidToken"
    by (simp add: token_issued_state_eq qr_validate_def initial_state_def select_user_def
        select_attendance_def select_workshop_def insert_attendance_def Let_def broadcastEvent_def)
  show ?thesis using w u by simp
qed

section \<open>Workshop tokens: one live token\<close>

lemma live_le_unused: "length (live_tokens now w s) \<le> length (unused_tokens w s)"
proof -
  have "live_tokens now w s = filter (\<lambda>q. \<not> q_expiresAt q < now) (unused_tokens w s)"
    by (simp add: live_tokens_def unused_tokens_def conj_commute conj_left_commute)
  then show ?thesis by simp
qed

lemma unused_frame:
  "qr_tokens s' = qr_tokens s \<Longrightarrow> unused_tokens w s' = unused_tokens w s"
  by (simp add: unused_tokens_def)

lemma length_filter_mono:
  "(\<And>x. x \<in> set xs \<Longrightarrow> P x \<Longrightarrow> Q x) \<Longrightarrow> length (filter P xs) \<le> length (filter Q xs)"
proof (induction xs)
  case Nil
  then show ?case by simp
next
  case (Cons a xs)
  then have "length (filter P xs) \<le> length (filter Q xs)" by simp
  with Cons.prems [of a] show ?case by auto
qed

lemma unused_delete_le:
  "length (unused_tokens w (delete_qr t s)) \<le> length (unused_tokens w s)"
  "length (unused_tokens w (delete_qr_stale now w' s)) \<le> length (unused_tokens w s)"
  by (simp_all add: unused_tokens_def delete_qr_def delete_qr_stale_def)
    (rule length_filter_mono, simp)+

lemma unused_delete_stale_same:
  "unused_tokens w (delete_qr_stale now w s) = []"
  by (auto simp: unused_tokens_def delete_qr_stale_def filter_empty_conv)

lemma unused_mark_used:
  "unused_tokens w (mark_used t s)
     = filter (\<lambda>q. q_token q \<noteq> t) (unused_tokens w s)"
proof -
  have "filter (\<lambda>q. q_workshopId q = w \<and> \<not> q_used q)
          (map (\<lambda>q. if q_token q = t then q\<lparr>q_used := True\<rparr> else q) xs)
        = filter (\<lambda>q. q_token q \<noteq> t) (filter (\<lambda>q. q_workshopId q = w \<and> \<not> q_used q) xs)"
    for xs :: "qr_row list"
    by (induction xs) auto
  then show ?thesis by (simp add: unused_tokens_def mark_used_def)
qed

lemma unused_mark_used_le:
  "length (unused_tokens w (mark_used t s)) \<le> length (unused_tokens w s)"
  by (simp add: unused_mark_used)

lemma unused_mark_used_less:
  assumes "select_qr t w s = Some qrData" and "\<not> q_used qrData"
  shows "length (unused_tokens w (mark_used t s)) < length (unused_tokens w s)"
proof -
  from assms have "qrData \<in> set (unused_tokens w s)" "\<not> q_token qrData \<noteq> t"
    by (auto simp: select_qr_def find_Some_iff unused_tokens_def)
  then show ?thesis
    unfolding unused_mark_used by (rule length_filter_less)
qed

lemma unused_insert_qr:
  "insert_qr q s = Some s1 \<Longrightarrow>
   length (unused_tokens w s1) = length (unused_tokens w s) + (if q_workshopId q = w \<and> \<not> q_used q then 1 else 0)"
  by (auto simp: insert_qr_def unused_tokens_def split: if_splits)

lemma unused_broadcast [simp]:
  "unused_tokens w (broadcastEvent e d s) = unused_tokens w s"
  by (simp add: unused_tokens_def)

lemma one_live_qr_generate_workshop:
  assumes "one_live_token w s"
  shows "one_live_token w (snd (qr_generate_workshop now rand token workshopId s))"
proof (cases "workshopId = [] \<or> select_workshop workshopId s = None")
  case True
  then show ?thesis using assms by (auto simp: qr_generate_workshop_def)
next
  case False
  let ?s1 = "delete_qr_stale now workshopId s"
  let ?row = "\<lparr>q_token = token, q_workshopId = workshopId, q_createdAt = now,
                q_expiresAt = now + rand + 10000, q_used = False\<rparr>"
  have le: "length (unused_tokens w ?s1) \<le> 1"
    using assms unused_delete_le(2) [of w now workshopId s]
    by (simp add: one_live_token_def)
  show ?thesis
  proof (cases "insert_qr ?row ?s1")
    case None
    then have "snd (qr_generate_workshop now rand token workshopId s) = ?s1"
      using False by (auto simp: qr_generate_workshop_def Let_def)
    then show ?thesis using le by (simp add: one_live_token_def)
  next
    case (Some s2)
    then have s2: "snd (qr_generate_workshop now rand token workshopId s) = s2"
      using False by (auto simp: qr_generate_workshop_def Let_def)
    have "length (unused_tokens w s2) \<le> 1"
    proof (cases "workshopId = w")
      case True
      then show ?thesis
        using unused_insert_qr [OF Some, of w] unused_delete_stale_same [of w now s] by simp
    next
      case False
      then show ?thesis using unused_insert_qr [OF Some, of w] le by simp
    qed
    then show ?thesis by (simp add: s2 one_live_token_def)
  qed
qed

lemma one_live_qr_validate_workshop:
  assumes "one_live_token w s"
  shows "one_live_token w
           (snd (qr_validate_workshop now rand attendanceId eventId newToken token workshopId userId s))"
proof (cases "\<exists>user qrData s1. token \<noteq> [] \<and> workshopId \<noteq> [] \<and> userId \<noteq> []
     \<and> select_user userId s = Some user \<and> select_reservation userId workshopId s \<noteq> None
     \<and> select_qr token workshopId s = Some qrData \<and> \<not> q_used qrData \<and> \<not> q_expiresAt qrData < now
     \<and> select_attendance userId workshopId s = None
     \<and> insert_attendance \<lparr>a_id = attendanceId, a_userId = userId, a_workshopId = workshopId,
                          a_checkedInAt = now\<rparr> s = Some s1")
  case False
  have "one_live_token w (delete_qr token s)"
    using assms unused_delete_le(1) [of w token s] by (simp add: one_live_token_def)
  with False assms show ?thesis
    by (auto simp: qr_validate_workshop_def Let_def split: option.splits)
next
  case True
  then obtain user qrData s1 where c: "token \<noteq> []" "workshopId \<noteq> []" "userId \<noteq> []"
     "select_user userId s = Some user" "select_reservation userId workshopId s \<noteq> None"
     "select_qr token workshopId s = Some qrData" "\<not> q_used qrData" "\<not> q_expiresAt qrData < now"
     "select_attendance userId workshopId s = None"
     and s1: "insert_attendance \<lparr>a_id = attendanceId, a_userId = userId, a_workshopId = workshopId,
                          a_checkedInAt = now\<rparr> s = Some s1"
    by blast
  let ?s' = "snd (qr_validate_workshop now rand attendanceId eventId newToken token workshopId userId s)"
  let ?s4 = "broadcastEvent ''qr_used''
                    (QrUsedPayload workshopId (u_name user) newToken (now + rand + 10000))
                    (broadcastEvent ''attendance''
                       (AttendancePayload eventId userId (u_name user) (u_email user) workshopId now)
                       (mark_used token s1))"
  let ?row = "\<lparr>q_token = newToken, q_workshopId = workshopId, q_createdAt = now,
                q_expiresAt = now + rand + 10000, q_used = False\<rparr>"
  have q1: "qr_tokens s1 = qr_tokens s"
    using insert_attendance_Some [OF s1] by simp
  have s': "?s' = (case insert_qr ?row ?s4 of None \<Rightarrow> ?s4 | Some s5 \<Rightarrow> s5)"
    using c s1 by (auto simp: qr_validate_workshop_def Let_def split: option.splits)
  have u1: "unused_tokens w' s1 = unused_tokens w' s" for w'
    using q1 by (rule unused_frame)
  have sel1: "select_qr token workshopId s1 = Some qrData"
    using c(6) q1 by (simp add: select_qr_def)
  have le4: "length (unused_tokens w ?s4) \<le> length (unused_tokens w s)"
    using unused_mark_used_le [of w token s1] by (simp add: u1)
  have less4: "workshopId = w \<Longrightarrow> length (unused_tokens w ?s4) < length (unused_tokens w s)"
    using unused_mark_used_less [OF sel1 c(7)] by (simp add: u1)
  have bound: "length (unused_tokens w s) \<le> 1"
    using assms by (simp add: one_live_token_def)
  have "length (unused_tokens w ?s') \<le> 1"
  proof (cases "insert_qr ?row ?s4")
    case None
    then have "?s' = ?s4" using s' by simp
    then show ?thesis using le4 bound by simp
  next
    case (Some s5)
    then have e5: "?s' = s5" using s' by simp
    have n5a: "workshopId = w \<Longrightarrow>
               length (unused_tokens w s5) = length (unused_tokens w ?s4) + 1"
      and n5b: "workshopId \<noteq> w \<Longrightarrow>
               length (unused_tokens w s5) = length (unused_tokens w ?s4)"
      using unused_insert_qr [OF Some, of w] by simp_all
    show ?thesis
    proof (cases "workshopId = w")
      case True
      from n5a [OF True] less4 [OF True] bound have "length (unused_tokens w s5) \<le> 1"
        by linarith
      then show ?thesis by (simp only: e5)
    next
      case False
      from n5b [OF False] le4 bound have "length (unused_tokens w s5) \<le> 1"
        by linarith
      then show ?thesis by (simp only: e5)
    qed
  qed
  then show ?thesis by (simp add: one_live_token_def)
qed

lemma insert_workshop_Some:
  "insert_workshop w s = Some s1 \<Longrightarrow> s1 = s\<lparr>workshops := workshops s @ [w]\<rparr>"
  by (auto simp: insert_workshop_def split: if_splits)

lemma insert_reservation_Some:
  "insert_reservation r s = Some s1 \<Longrightarrow> s1 = s\<lparr>reservations := reservations s @ [r]\<rparr>"
  by (auto simp: insert_reservation_def split: if_splits)

lemma qr_tokens_post_workshops: "qr_tokens (snd (post_workshops now body s)) = qr_tokens s"
  by (auto simp: post_workshops_def Let_def split: option.splits dest!: insert_workshop_Some)

lemma qr_tokens_post_reservations:
  "qr_tokens (snd (post_reservations toDouble parseDate now startOfToday userId workshopId s)) = qr_tokens s"
  by (auto simp: post_reservations_def Let_def update_seats_def split: option.splits
      dest!: insert_reservation_Some)

lemma qr_tokens_delete_reservations:
  "qr_tokens (snd (delete_reservations toDouble userId workshopId s)) = qr_tokens s"
  by (auto simp: delete_reservations_def Let_def delete_reservation_def update_seats_def
      split: option.splits)

lemma qr_tokens_qr_generate:
  "qr_tokens (snd (qr_generate ttl now token userId workshopId s)) = qr_tokens s"
  by (simp add: qr_generate_def Let_def)

lemma qr_tokens_qr_validate: "qr_tokens (snd (qr_validate now token s)) = qr_tokens s"
  by (auto simp: qr_validate_def Let_def split: option.splits dest!: insert_attendance_Some)

lemma one_live_handle:
  assumes "one_live_token w s"
  shows "one_live_token w (handle toDouble parseDate ttl req s)"
proof (cases req)
  case (PostWorkshops now body)
  then show ?thesis
    using assms by (simp add: one_live_token_def unused_frame [OF qr_tokens_post_workshops])
next
  case (PostReservations now startOfToday userId workshopId)
  then show ?thesis
    using assms by (simp add: one_live_token_def unused_frame [OF qr_tokens_post_reservations])
next
  case (DeleteReservations userId workshopId)
  then show ?thesis
    using assms by (simp add: one_live_token_def unused_frame [OF qr_tokens_delete_reservations])
next
  case (QrGenerate now token userId workshopId)
  then show ?thesis
    using assms by (simp add: one_live_token_def unused_frame [OF qr_tokens_qr_generate])
next
  case (QrValidate now token)
  then show ?thesis
    using assms by (simp add: one_live_token_def unused_frame [OF qr_tokens_qr_validate])
next
  case (QrGenerateWorkshop now rand token workshopId)
  then show ?thesis using assms one_live_qr_generate_workshop by simp
next
  case (QrValidateWorkshop now rand attendanceId eventId newToken token workshopId userId)
  then show ?thesis using assms one_live_qr_validate_workshop by simp
next
  case (EventsOpen client)
  then show ?thesis using assms
    by (simp add: one_live_token_def unused_tokens_def events_open_def)
next
  case (EventsClose client)
  then show ?thesis using assms
    by (simp add: one_live_token_def unused_tokens_def events_close_def)
next
  case (Cleanup now)
  then show ?thesis using assms
    by (simp add: one_live_token_def unused_tokens_def cleanup_def)
qed

lemma one_live_run:
  "one_live_token w s \<Longrightarrow> one_live_token w (run toDouble parseDate ttl reqs s)"
  by (induction reqs arbitrary: s) (simp_all add: one_live_handle)

lemma generate_workshop_state:
  assumes "workshopId \<noteq> []" and "select_workshop workshopId s \<noteq> None"
  shows "snd (qr_generate_workshop now rand token workshopId s)
         = (case insert_qr \<lparr>q_token = token, q_workshopId = workshopId, q_createdAt = now,
                            q_expiresAt = now + rand + 10000, q_used = False\<rparr>
                   (delete_qr_stale now workshopId s) of
              None \<Rightarrow> delete_qr_stale now workshopId s
            | Some s2 \<Rightarrow> s2)"
  using assms by (auto simp: qr_generate_workshop_def Let_def split: option.splits)

lemma generate_workshop_frames:
  "users (snd (qr_generate_workshop now rand token workshopId s)) = users s"
  "workshops (snd (qr_generate_workshop now rand token workshopId s)) = workshops s"
  "reservations (snd (qr_generate_workshop now rand token workshopId s)) = reservations s"
  "attendance (snd (qr_generate_workshop now rand token workshopId s)) = attendance s"
  by (auto simp: qr_generate_workshop_def Let_def delete_qr_stale_def split: option.splits
      dest!: insert_qr_Some)

lemma generate_workshop_selects:
  "select_user u (snd (qr_generate_workshop now rand token workshopId s)) = select_user u s"
  "select_workshop w (snd (qr_generate_workshop now rand token workshopId s)) = select_workshop w s"
  "select_reservation u w (snd (qr_generate_workshop now rand token workshopId s)) = select_reservation u w s"
  "select_attendance u w (snd (qr_generate_workshop now rand token workshopId s)) = select_attendance u w s"
  by (simp_all add: select_user_def select_workshop_def select_reservation_def select_attendance_def
      generate_workshop_frames)

lemma generate_workshop_only_new:
  assumes "workshopId \<noteq> []" and "select_workshop workshopId s \<noteq> None"
    and "q \<in> set (qr_tokens (snd (qr_generate_workshop now rand token workshopId s)))"
    and "q_workshopId q = workshopId"
  shows "q = \<lparr>q_token = token, q_workshopId = workshopId, q_createdAt = now,
               q_expiresAt = now + rand + 10000, q_used = False\<rparr>"
proof (cases "insert_qr \<lparr>q_token = token, q_workshopId = workshopId, q_createdAt = now,
                            q_expiresAt = now + rand + 10000, q_used = False\<rparr>
                   (delete_qr_stale now workshopId s)")
  case None
  then have "snd (qr_generate_workshop now rand token workshopId s) = delete_qr_stale now workshopId s"
    using generate_workshop_state [OF assms(1,2)] by simp
  with assms(3,4) show ?thesis by (simp add: delete_qr_stale_def)
next
  case (Some s2)
  then have "snd (qr_generate_workshop now rand token workshopId s) = s2"
    using generate_workshop_state [OF assms(1,2)] by simp
  with assms(3,4) insert_qr_Some [OF Some] show ?thesis
    by (auto simp: delete_qr_stale_def)
qed

lemma generate_workshop_select_new:
  assumes "fst (qr_generate_workshop now rand token workshopId s) = Inr r"
  shows "select_qr token workshopId (snd (qr_generate_workshop now rand token workshopId s))
         = Some \<lparr>q_token = token, q_workshopId = workshopId, q_createdAt = now,
                 q_expiresAt = now + rand + 10000, q_used = False\<rparr>"
proof -
  from assms obtain s2 where ins: "insert_qr \<lparr>q_token = token, q_workshopId = workshopId,
      q_createdAt = now, q_expiresAt = now + rand + 10000, q_used = False\<rparr>
      (delete_qr_stale now workshopId s) = Some s2"
    and s2: "snd (qr_generate_workshop now rand token workshopId s) = s2"
    by (auto simp: qr_generate_workshop_def Let_def split: option.splits if_splits)
  have "find (\<lambda>q. q_token q = token \<and> q_workshopId q = workshopId)
          (qr_tokens (delete_qr_stale now workshopId s)) = None"
    by (auto simp: find_None_iff delete_qr_stale_def)
  then show ?thesis
    unfolding s2 using insert_qr_Some [OF ins]
    by (simp add: select_qr_def find_append)
qed

lemma insert_attendance_None_cong:
  "attendance s' = attendance s \<Longrightarrow> users s' = users s \<Longrightarrow> workshops s' = workshops s \<Longrightarrow>
   (insert_attendance a s' = None) = (insert_attendance a s = None)"
  by (simp add: insert_attendance_def select_attendance_def select_user_def select_workshop_def)

lemma validate_workshop_accepts:
  assumes "token \<noteq> []" and "workshopId \<noteq> []" and "userId \<noteq> []"
    and "select_user userId s = Some user"
    and "select_reservation userId workshopId s \<noteq> None"
    and "select_qr token workshopId s = Some qrData"
    and "\<not> q_used qrData" and "\<not> q_expiresAt qrData < now"
    and "select_attendance userId workshopId s = None"
    and "insert_attendance \<lparr>a_id = attendanceId, a_userId = userId, a_workshopId = workshopId,
                            a_checkedInAt = now\<rparr> s \<noteq> None"
    and "newToken \<notin> set (map q_token (qr_tokens s))"
  shows "fst (qr_validate_workshop now rand attendanceId eventId newToken token workshopId userId s)
         = Inr (user, workshopId, now, newToken, now + rand + 10000)"
proof -
  from assms(10) obtain s1 where s1: "insert_attendance \<lparr>a_id = attendanceId, a_userId = userId,
      a_workshopId = workshopId, a_checkedInAt = now\<rparr> s = Some s1" by auto
  have e1: "s1 = s\<lparr>attendance := attendance s @ [\<lparr>a_id = attendanceId, a_userId = userId,
      a_workshopId = workshopId, a_checkedInAt = now\<rparr>]\<rparr>"
    using insert_attendance_Some [OF s1] .
  have w: "select_workshop workshopId s \<noteq> None"
    using s1 by (auto simp: insert_attendance_def split: if_splits)
  have fresh: "newToken \<notin> set (map q_token (qr_tokens (mark_used token s1)))"
    using assms(11) e1 by (simp add: mark_used_def map_q_token_update)
  have ins: "insert_qr \<lparr>q_token = newToken, q_workshopId = workshopId, q_createdAt = now,
               q_expiresAt = now + rand + 10000, q_used = False\<rparr>
               (broadcastEvent ev2 d2 (broadcastEvent ev1 d1 (mark_used token s1))) \<noteq> None" for ev1 d1 ev2 d2
    using fresh w e1 by (simp add: insert_qr_def select_workshop_def)
  show ?thesis
    using assms(1-9) s1 ins
    by (auto simp: qr_validate_workshop_def Let_def split: option.splits)
qed

text \<open>
  Claim C7. \<^verbatim>\<open>POST /qr/generate-workshop\<close> deletes every token row of the workshop before
  it inserts the new one, so the only row of the workshop afterwards is the new token. A
  database with at most one unused token row for a workshop keeps that property through
  every sequence of requests (the rotation after a check-in inserts its token only after
  the presented one is marked used), so at most one token of the workshop is live at any
  time. When two tokens are issued for a workshop one after the other, a check-in with the
  first fails with \<open>InvalidToken\<close>, and a check-in with the second, presented before it
  expires by a user with a reservation and no attendance, succeeds.
\<close>

theorem workshop_issue_invalidates_previous:
  "(workshopId \<noteq> [] \<and> select_workshop workshopId s \<noteq> None \<longrightarrow>
      (\<forall>q \<in> set (qr_tokens (snd (qr_generate_workshop now1 rand1 token1 workshopId s))).
          q_workshopId q = workshopId \<longrightarrow>
          q = \<lparr>q_token = token1, q_workshopId = workshopId, q_createdAt = now1,
                q_expiresAt = now1 + rand1 + 10000, q_used = False\<rparr>))
   \<and> (one_live_token w s \<longrightarrow>
        one_live_token w (run toDouble parseDate ttl reqs s)
        \<and> length (live_tokens t w (run toDouble parseDate ttl reqs s)) \<le> 1)
   \<and> (workshopId \<noteq> [] \<and> select_workshop workshopId s \<noteq> None \<and> token1 \<noteq> token2
        \<and> token1 \<noteq> [] \<and> token2 \<noteq> [] \<and> userId \<noteq> []
        \<and> select_user userId s = Some user \<and> select_reservation userId workshopId s \<noteq> None \<longrightarrow>
        qr_validate_workshop now3 rand3 attendanceId eventId newToken token1 workshopId userId
          (snd (qr_generate_workshop now2 rand2 token2 workshopId
                  (snd (qr_generate_workshop now1 rand1 token1 workshopId s))))
          = (Inl InvalidToken,
             snd (qr_generate_workshop now2 rand2 token2 workshopId
                    (snd (qr_generate_workshop now1 rand1 token1 workshopId s))))
        \<and> ((\<exists>n. fst (qr_generate_workshop now2 rand2 token2 workshopId
                        (snd (qr_generate_workshop now1 rand1 token1 workshopId s))) = Inr (token2, n))
             \<and> \<not> now2 + rand2 + 10000 < now3
             \<and> select_attendance userId workshopId s = None
             \<and> insert_attendance \<lparr>a_id = attendanceId, a_userId = userId, a_workshopId = workshopId,
                                   a_checkedInAt = now3\<rparr> s \<noteq> None
             \<and> newToken \<notin> set (map q_token (qr_tokens
                   (snd (qr_generate_workshop now2 rand2 token2 workshopId
                           (snd (qr_generate_workshop now1 rand1 token1 workshopId s)))))) \<longrightarrow>
             fst (qr_validate_workshop now3 rand3 attendanceId eventId newToken token2 workshopId userId
                    (snd (qr_generate_workshop now2 rand2 token2 workshopId
                            (snd (qr_generate_workshop now1 rand1 token1 workshopId s)))))
               = Inr (user, workshopId, now3, newToken, now3 + rand3 + 10000)))"
proof (intro conjI impI ballI)
  fix q
  assume "workshopId \<noteq> [] \<and> select_workshop workshopId s \<noteq> None"
    and "q \<in> set (qr_tokens (snd (qr_generate_workshop now1 rand1 token1 workshopId s)))"
    and "q_workshopId q = workshopId"
  then show "q = \<lparr>q_token = token1, q_workshopId = workshopId, q_createdAt = now1,
                q_expiresAt = now1 + rand1 + 10000, q_used = False\<rparr>"
    using generate_workshop_only_new by blast
next
  assume "one_live_token w s"
  then show o: "one_live_token w (run toDouble parseDate ttl reqs s)"
    by (rule one_live_run)
  show "length (live_tokens t w (run toDouble parseDate ttl reqs s)) \<le> 1"
    using o live_le_unused [of t w "run toDouble parseDate ttl reqs s"]
    by (simp add: one_live_token_def)
next
  let ?S1 = "snd (qr_generate_workshop now1 rand1 token1 workshopId s)"
  let ?S2 = "snd (qr_generate_workshop now2 rand2 token2 workshopId ?S1)"
  assume a: "workshopId \<noteq> [] \<and> select_workshop workshopId s \<noteq> None \<and> token1 \<noteq> token2
        \<and> token1 \<noteq> [] \<and> token2 \<noteq> [] \<and> userId \<noteq> []
        \<and> select_user userId s = Some user \<and> select_reservation userId workshopId s \<noteq> None"
  then have w1: "select_workshop workshopId ?S1 \<noteq> None"
    by (simp add: generate_workshop_selects)
  have u2: "select_user userId ?S2 = Some user" and r2: "select_reservation userId workshopId ?S2 \<noteq> None"
    using a by (simp_all add: generate_workshop_selects)
  have "\<forall>q \<in> set (qr_tokens ?S2). q_token q = token1 \<longrightarrow> q_workshopId q \<noteq> workshopId"
  proof (intro ballI impI notI)
    fix q
    assume "q \<in> set (qr_tokens ?S2)" "q_token q = token1" "q_workshopId q = workshopId"
    with generate_workshop_only_new [of workshopId ?S1 q now2 rand2 token2] a w1
    show False by auto
  qed
  then have "select_qr token1 workshopId ?S2 = None"
    by (simp add: select_qr_None)
  then show "qr_validate_workshop now3 rand3 attendanceId eventId newToken token1 workshopId userId ?S2
          = (Inl InvalidToken, ?S2)"
    using a u2 r2 by (auto simp: qr_validate_workshop_def)
  assume b: "(\<exists>n. fst (qr_generate_workshop now2 rand2 token2 workshopId ?S1) = Inr (token2, n))
             \<and> \<not> now2 + rand2 + 10000 < now3
             \<and> select_attendance userId workshopId s = None
             \<and> insert_attendance \<lparr>a_id = attendanceId, a_userId = userId, a_workshopId = workshopId,
                                   a_checkedInAt = now3\<rparr> s \<noteq> None
             \<and> newToken \<notin> set (map q_token (qr_tokens ?S2))"
  then obtain n where "fst (qr_generate_workshop now2 rand2 token2 workshopId ?S1) = Inr (token2, n)"
    by blast
  then have sel: "select_qr token2 workshopId ?S2
      = Some \<lparr>q_token = token2, q_workshopId = workshopId, q_createdAt = now2,
              q_expiresAt = now2 + rand2 + 10000, q_used = False\<rparr>"
    by (rule generate_workshop_select_new)
  have att: "select_attendance userId workshopId ?S2 = None"
    using b by (simp add: generate_workshop_selects)
  have ins: "insert_attendance \<lparr>a_id = attendanceId, a_userId = userId, a_workshopId = workshopId,
                                   a_checkedInAt = now3\<rparr> ?S2 \<noteq> None"
    using b insert_attendance_None_cong [of ?S2 s]
    by (simp add: generate_workshop_frames)
  show "fst (qr_validate_workshop now3 rand3 attendanceId eventId newToken token2 workshopId userId ?S2)
               = Inr (user, workshopId, now3, newToken, now3 + rand3 + 10000)"
    using a b by (intro validate_workshop_accepts [OF _ _ _ u2 r2 sel _ _ att ins]) simp_all
qed

lemma demo_two_issues:
  "qr_generate_workshop 110 5 ''B'' ''w1'' (snd (qr_generate_workshop 100 0 ''A'' ''w1'' demo_state))
   = (Inr (''B'', 1),
      demo_state\<lparr>qr_tokens := [\<lparr>q_token = ''B'', q_workshopId = ''w1'', q_createdAt = 110,
                                   q_expiresAt = 10115, q_used = False\<rparr>]\<rparr>)"
  by (simp add: qr_generate_workshop_def Let_def demo_state_def select_workshop_def
      workshop_with_def delete_qr_stale_def insert_qr_def attendanceCount_def)

text \<open>
  The theorem on the example database: the displayed token is replaced twice, and the
  second user presents the first and then the second of the new tokens.
\<close>

theorem workshop_issue_invalidates_previous_witness:
  "one_live_token ''w1'' demo_state
   \<and> one_live_token ''w1''
       (run no_rounding no_date 10000 [QrGenerateWorkshop 100 0 ''A'' ''w1'', QrGenerateWorkshop 110 5 ''B'' ''w1'']
          demo_state)
   \<and> fst (qr_validate_workshop 120 0 ''a2'' ''e2'' ''C'' ''A'' ''w1'' ''u2''
            (snd (qr_generate_workshop 110 5 ''B'' ''w1''
                    (snd (qr_generate_workshop 100 0 ''A'' ''w1'' demo_state)))))
       = Inl InvalidToken
   \<and> fst (qr_validate_workshop 120 0 ''a2'' ''e2'' ''C'' ''B'' ''w1'' ''u2''
            (snd (qr_generate_workshop 110 5 ''B'' ''w1''
                    (snd (qr_generate_workshop 100 0 ''A'' ''w1'' demo_state)))))
       = Inr (\<lparr>u_id = ''u2'', u_name = ''Bob'', u_email = ''bob@example.org''\<rparr>, ''w1'', 120, ''C'', 10120)"
proof -
  have live: "one_live_token ''w1'' demo_state"
    by (simp add: one_live_token_def unused_tokens_def demo_state_def)
  have ins: "insert_attendance \<lparr>a_id = ''a2'', a_userId = ''u2'', a_workshopId = ''w1'',
                                a_checkedInAt = 120\<rparr> demo_state \<noteq> None"
    by (simp add: insert_attendance_def demo_simps) (simp add: demo_state_def)
  have fresh: "''C'' \<notin> set (map q_token (qr_tokens
      (snd (qr_generate_workshop 110 5 ''B'' ''w1''
              (snd (qr_generate_workshop 100 0 ''A'' ''w1'' demo_state))))))"
    by (simp add: demo_two_issues)
  have ok: "fst (qr_generate_workshop 110 5 ''B'' ''w1''
              (snd (qr_generate_workshop 100 0 ''A'' ''w1'' demo_state))) = Inr (''B'', 1)"
    by (simp add: demo_two_issues)
  show ?thesis
    using live ins fresh ok
      workshop_issue_invalidates_previous
        [where s = demo_state and w = "''w1''" and workshopId = "''w1''" and toDouble = no_rounding and parseDate = no_date
           and ttl = 10000
           and reqs = "[QrGenerateWorkshop 100 0 ''A'' ''w1'', QrGenerateWorkshop 110 5 ''B'' ''w1'']"
           and ?now1.0 = 100 and ?rand1.0 = 0 and ?token1.0 = "''A''"
           and ?now2.0 = 110 and ?rand2.0 = 5 and ?token2.0 = "''B''"
           and ?now3.0 = 120 and ?rand3.0 = 0 and attendanceId = "''a2''" and eventId = "''e2''"
           and newToken = "''C''" and userId = "''u2''"
           and user = "\<lparr>u_id = ''u2'', u_name = ''Bob'', u_email = ''bob@example.org''\<rparr>"]
    by (simp add: demo_simps)
qed

end
